theory Spec2Isabelle
  imports Complex_Main "HOL-Library.Multiset"
begin

section \<open>JavaScript numbers\<close>

text \<open>
  A JavaScript \<open>number\<close> is an IEEE 754 binary64 value: a finite double, \<open>NaN\<close>, or one
  of the two infinities. A finite number is given by its real value. The two zeros are not
  told apart: no comparison distinguishes them, and no division of the code modelled here has
  a divisor that can be zero (each is guarded by an epsilon test or divides by \<open>1e6\<close>).
\<close>

datatype jsnum = Fin real | NaN | PosInf | NegInf

subsection \<open>Rounding to the nearest double\<close>

text \<open>
  Every arithmetic operation returns the double nearest to the exact result, a tie going to
  the even significand. \<open>rne\<close> rounds a real to the nearest integer, ties to even.
  \<open>exponent x\<close> is the binary exponent of a non-zero \<open>x\<close>, found by halving or doubling.
  A double has 53 significant bits and no exponent below -1022, so the spacing of doubles
  around \<open>x\<close> is \<open>ulp x\<close>.
\<close>

definition rne :: "real \<Rightarrow> int" where
  "rne x =
     (let f = \<lfloor>x\<rfloor>; d = x - of_int f
      in if d < 1 / 2 then f else if 1 / 2 < d then f + 1 else if even f then f else f + 1)"

function expUp :: "real \<Rightarrow> int" where
  "expUp x = (if 2 \<le> x then expUp (x / 2) + 1 else 0)"
  by pat_completeness auto
termination
proof (relation "measure (\<lambda>x. nat \<lfloor>x\<rfloor>)")
  show "wf (measure (\<lambda>x::real. nat \<lfloor>x\<rfloor>))" by simp
next
  fix x :: real
  assume x: "2 \<le> x"
  have "of_int \<lfloor>x / 2\<rfloor> \<le> x / 2" by (rule of_int_floor_le)
  also have "\<dots> \<le> x - 1" using x by simp
  also have "\<dots> < of_int \<lfloor>x\<rfloor>" by linarith
  finally have "\<lfloor>x / 2\<rfloor> < \<lfloor>x\<rfloor>" by simp
  moreover have "0 < \<lfloor>x\<rfloor>" using x by linarith
  ultimately show "(x / 2, x) \<in> measure (\<lambda>x. nat \<lfloor>x\<rfloor>)" by simp
qed

function expDown :: "real \<Rightarrow> int" where
  "expDown x = (if 0 < x \<and> x < 1 then expDown (2 * x) - 1 else 0)"
  by pat_completeness auto
termination
proof (relation "measure (\<lambda>x. nat \<lfloor>1 / x\<rfloor>)")
  show "wf (measure (\<lambda>x::real. nat \<lfloor>1 / x\<rfloor>))" by simp
next
  fix x :: real
  assume x: "0 < x \<and> x < 1"
  define y where "y = 1 / x"
  have y: "1 < y" using x by (simp add: y_def)
  have h: "1 / (2 * x) = y / 2" by (simp add: y_def)
  have "\<lfloor>y / 2\<rfloor> < \<lfloor>y\<rfloor>"
  proof (cases "y < 2")
    case True
    then have "\<lfloor>y / 2\<rfloor> = 0" using y by (intro floor_unique) simp_all
    moreover have "0 < \<lfloor>y\<rfloor>" using y by linarith
    ultimately show ?thesis by simp
  next
    case False
    have "of_int \<lfloor>y / 2\<rfloor> \<le> y / 2" by (rule of_int_floor_le)
    also have "\<dots> \<le> y - 1" using False by simp
    also have "\<dots> < of_int \<lfloor>y\<rfloor>" by linarith
    finally show ?thesis by simp
  qed
  then have "\<lfloor>1 / (2 * x)\<rfloor> < \<lfloor>1 / x\<rfloor>" unfolding h by (simp only: y_def)
  moreover have "0 < \<lfloor>1 / x\<rfloor>" using y unfolding y_def by linarith
  ultimately show "(2 * x, x) \<in> measure (\<lambda>x. nat \<lfloor>1 / x\<rfloor>)"
    by (simp add: mult.commute)
qed

definition exponent :: "real \<Rightarrow> int" where
  "exponent x = (if 1 \<le> \<bar>x\<bar> then expUp \<bar>x\<bar> else expDown \<bar>x\<bar>)"

definition ulp :: "real \<Rightarrow> real" where
  "ulp x = 2 powi (max (exponent x) (- 1022) - 52)"

text \<open>The nearest number with a 53-bit significand, and the double it gives (overflow goes to infinity).\<close>

definition fl :: "real \<Rightarrow> real" where
  "fl x = of_int (rne (x / ulp x)) * ulp x"

definition toDouble :: "real \<Rightarrow> jsnum" where
  "toDouble x =
     (let y = fl x
      in if 2 ^ 1024 \<le> y then PosInf else if y \<le> - (2 ^ 1024) then NegInf else Fin y)"

definition isDouble :: "real \<Rightarrow> bool" where
  "isDouble x = (toDouble x = Fin x)"

subsection \<open>Arithmetic and comparisons\<close>

text \<open>
  The operators \<open>+\<close>, \<open>-\<close>, \<open>*\<close>, \<open>/\<close> and the comparisons on numbers, with the
  IEEE rules for \<open>NaN\<close> and the infinities. A comparison with \<open>NaN\<close> is false.
\<close>

fun jsNeg :: "jsnum \<Rightarrow> jsnum" where
  "jsNeg (Fin x) = Fin (- x)"
| "jsNeg NaN = NaN"
| "jsNeg PosInf = NegInf"
| "jsNeg NegInf = PosInf"

fun jsAdd :: "jsnum \<Rightarrow> jsnum \<Rightarrow> jsnum" where
  "jsAdd (Fin x) (Fin y) = toDouble (x + y)"
| "jsAdd NaN b = NaN"
| "jsAdd a NaN = NaN"
| "jsAdd PosInf NegInf = NaN"
| "jsAdd NegInf PosInf = NaN"
| "jsAdd PosInf b = PosInf"
| "jsAdd a PosInf = PosInf"
| "jsAdd NegInf b = NegInf"
| "jsAdd a NegInf = NegInf"

definition jsSub :: "jsnum \<Rightarrow> jsnum \<Rightarrow> jsnum" where
  "jsSub a b = jsAdd a (jsNeg b)"

fun jsMul :: "jsnum \<Rightarrow> jsnum \<Rightarrow> jsnum" where
  "jsMul (Fin x) (Fin y) = toDouble (x * y)"
| "jsMul NaN b = NaN"
| "jsMul a NaN = NaN"
| "jsMul (Fin x) PosInf = (if x = 0 then NaN else if 0 < x then PosInf else NegInf)"
| "jsMul (Fin x) NegInf = (if x = 0 then NaN else if 0 < x then NegInf else PosInf)"
| "jsMul PosInf (Fin y) = (if y = 0 then NaN else if 0 < y then PosInf else NegInf)"
| "jsMul NegInf (Fin y) = (if y = 0 then NaN else if 0 < y then NegInf else PosInf)"
| "jsMul PosInf PosInf = PosInf"
| "jsMul PosInf NegInf = NegInf"
| "jsMul NegInf PosInf = NegInf"
| "jsMul NegInf NegInf = PosInf"

fun jsDiv :: "jsnum \<Rightarrow> jsnum \<Rightarrow> jsnum" where
  "jsDiv (Fin x) (Fin y) =
     (if y = 0 then (if x = 0 then NaN else if 0 < x then PosInf else NegInf)
      else toDouble (x / y))"
| "jsDiv NaN b = NaN"
| "jsDiv a NaN = NaN"
| "jsDiv (Fin x) PosInf = Fin 0"
| "jsDiv (Fin x) NegInf = Fin 0"
| "jsDiv PosInf (Fin y) = (if 0 \<le> y then PosInf else NegInf)"
| "jsDiv NegInf (Fin y) = (if 0 \<le> y then NegInf else PosInf)"
| "jsDiv PosInf b = NaN"
| "jsDiv NegInf b = NaN"

fun jsLt :: "jsnum \<Rightarrow> jsnum \<Rightarrow> bool" where
  "jsLt (Fin x) (Fin y) = (x < y)"
| "jsLt NaN b = False"
| "jsLt a NaN = False"
| "jsLt a NegInf = False"
| "jsLt NegInf b = True"
| "jsLt PosInf b = False"
| "jsLt (Fin x) PosInf = True"

fun jsLe :: "jsnum \<Rightarrow> jsnum \<Rightarrow> bool" where
  "jsLe (Fin x) (Fin y) = (x \<le> y)"
| "jsLe NaN b = False"
| "jsLe a NaN = False"
| "jsLe NegInf b = True"
| "jsLe a PosInf = True"
| "jsLe a NegInf = False"
| "jsLe PosInf b = False"

definition jsGt :: "jsnum \<Rightarrow> jsnum \<Rightarrow> bool" where
  "jsGt a b = jsLt b a"

text \<open>The comparison \<open>==\<close> on numbers: \<open>NaN\<close> equals nothing.\<close>

fun jsEquals :: "jsnum \<Rightarrow> jsnum \<Rightarrow> bool" where
  "jsEquals NaN y = False"
| "jsEquals x NaN = False"
| "jsEquals x y = (x = y)"

text \<open>\<open>Math.min\<close> and \<open>Math.max\<close> of two numbers: \<open>NaN\<close> if either is.\<close>

definition Math_min :: "jsnum \<Rightarrow> jsnum \<Rightarrow> jsnum" where
  "Math_min a b = (if a = NaN \<or> b = NaN then NaN else if jsLe a b then a else b)"

definition Math_max :: "jsnum \<Rightarrow> jsnum \<Rightarrow> jsnum" where
  "Math_max a b = (if a = NaN \<or> b = NaN then NaN else if jsLe a b then b else a)"

text \<open>
  \<open>Math.round\<close> rounds to the nearest integer, a tie going up. The result is itself a
  double: a double of magnitude \<open>2^52\<close> or more is already an integer.
\<close>

fun Math_round :: "jsnum \<Rightarrow> jsnum" where
  "Math_round (Fin v) = Fin (of_int \<lfloor>v + 1 / 2\<rfloor>)"
| "Math_round NaN = NaN"
| "Math_round PosInf = PosInf"
| "Math_round NegInf = NegInf"

text \<open>\<open>const round6 = (value) => Math.round(value * 1e6) / 1e6\<close>, the same in both files.\<close>

definition round6 :: "jsnum \<Rightarrow> jsnum" where
  "round6 v = jsDiv (Math_round (jsMul v (Fin 1000000))) (Fin 1000000)"

text \<open>
  The constants: the literals \<open>1e-9\<close> and \<open>1e-6\<close> denote the doubles nearest to these
  decimals.
\<close>

definition FIFO_EPSILON :: real where
  "FIFO_EPSILON = fl (1 / 1000000000)"

definition STATS_EPSILON :: real where
  "STATS_EPSILON = fl (1 / 1000000)"

definition DEFAULT_INITIAL_CASH :: real where
  "DEFAULT_INITIAL_CASH = 1000000"


section \<open>Untyped store values\<close>

text \<open>
  Values as they come back from the document store (type \<open>unknown\<close> in the source):
  a Firestore \<open>Timestamp\<close> and a \<open>Date\<close> carry their epoch milliseconds.
\<close>

datatype jsvalue =
    JUndefined
  | JNull
  | JBool bool
  | JNumber jsnum
  | JString string
  | JTimestamp real
  | JDate real
  | JArray "jsvalue list"
  | JObject "(string \<times> jsvalue) list"

text \<open>\<open>sanitizeNumber\<close>: a value that is a number and finite, else undefined.\<close>

fun sanitizeNumber :: "jsvalue \<Rightarrow> real option" where
  "sanitizeNumber (JNumber (Fin r)) = Some r"
| "sanitizeNumber _ = None"

text \<open>Property access \<open>(entry as any).k\<close> on a value that is not null or undefined.\<close>

fun getProp :: "jsvalue \<Rightarrow> string \<Rightarrow> jsvalue" where
  "getProp (JObject fs) k = (case map_of fs k of Some v \<Rightarrow> v | None \<Rightarrow> JUndefined)"
| "getProp _ k = JUndefined"

text \<open>\<open>entry && typeof entry === "object"\<close>\<close>

fun isObject :: "jsvalue \<Rightarrow> bool" where
  "isObject (JObject fs) = True"
| "isObject (JArray xs) = True"
| "isObject (JTimestamp t) = True"
| "isObject (JDate t) = True"
| "isObject _ = False"


section \<open>The write side: FIFO lots of one position document\<close>

datatype SpotSide = Buy | Sell

datatype error = InsufficientFifoLots | QuantityMustBePositive | PriceMustBePositive

text \<open>
  A lot. Quantity and price are numbers (after \<open>round6\<close> they may be infinite); the
  timestamps that reach the code are finite (a stored finite number, 0, or \<open>Date.now()\<close>),
  so the comparator \<open>a.ts - b.ts\<close> orders them as the reals do.
\<close>

record FifoLotDoc =
  qty :: jsnum
  price :: jsnum
  ts :: real

definition lotOfEntry :: "jsvalue \<Rightarrow> FifoLotDoc option" where
  "lotOfEntry entry =
     (if \<not> isObject entry then None
      else
        let q = sanitizeNumber (getProp entry ''qty'');
            p = sanitizeNumber (getProp entry ''price'');
            tsCandidate = getProp entry ''ts'';
            t = (case tsCandidate of JNumber (Fin v) \<Rightarrow> v | _ \<Rightarrow> 0)
        in case (q, p) of
             (Some q', Some p') \<Rightarrow>
               if q' \<le> FIFO_EPSILON then None
               else Some \<lparr>qty = Fin q', price = Fin p', ts = t\<rparr>
           | _ \<Rightarrow> None)"

text \<open>\<open>Array.prototype.sort\<close> is stable, as \<open>sort_key\<close> is.\<close>

definition normalizeFifoLots :: "jsvalue \<Rightarrow> FifoLotDoc list" where
  "normalizeFifoLots raw =
     (case raw of
        JArray es \<Rightarrow> sort_key ts (List.map_filter lotOfEntry es)
      | _ \<Rightarrow> [])"

text \<open>
  The \<open>for\<close> loop of the sell branch: \<open>remaining\<close> and \<open>updated\<close> are the loop's
  variables, the third argument is what is left of \<open>currentLots\<close>.
\<close>

fun sellLoop :: "jsnum \<Rightarrow> FifoLotDoc list \<Rightarrow> FifoLotDoc list \<Rightarrow> jsnum \<times> FifoLotDoc list" where
  "sellLoop remaining updated [] = (remaining, updated)"
| "sellLoop remaining updated (lot # rest) =
     (if jsLe remaining (Fin FIFO_EPSILON) then sellLoop remaining (updated @ [lot]) rest
      else
        let consume = Math_min (qty lot) remaining;
            leftover = jsSub (qty lot) consume;
            remaining' = jsSub remaining consume
        in if jsGt leftover (Fin FIFO_EPSILON)
           then sellLoop remaining' (updated @ [lot\<lparr>qty := round6 leftover\<rparr>]) rest
           else sellLoop remaining' updated rest)"

record PositionPayload =
  p_symbol :: string
  p_qty :: jsnum
  p_avgPrice :: jsnum
  p_lots :: "FifoLotDoc list"
  p_updatedAt :: real

definition finishLots :: "FifoLotDoc list \<Rightarrow> FifoLotDoc list" where
  "finishLots nextLots =
     sort_key ts
       (map (\<lambda>lot. lot\<lparr>qty := round6 (qty lot), price := round6 (price lot)\<rparr>)
          (filter (\<lambda>lot. jsGt (qty lot) (Fin FIFO_EPSILON)) nextLots))"

definition mkPayload :: "string \<Rightarrow> real \<Rightarrow> FifoLotDoc list \<Rightarrow> PositionPayload" where
  "mkPayload symb t nextLots =
     (let totalQty = foldl (\<lambda>acc lot. jsAdd acc (qty lot)) (Fin 0) nextLots;
          totalCost = foldl (\<lambda>acc lot. jsAdd acc (jsMul (qty lot) (price lot))) (Fin 0) nextLots;
          avgPrice = (if jsGt totalQty (Fin FIFO_EPSILON) then round6 (jsDiv totalCost totalQty)
                      else Fin 0)
      in \<lparr>p_symbol = symb, p_qty = round6 totalQty, p_avgPrice = avgPrice,
          p_lots = nextLots, p_updatedAt = t\<rparr>)"

text \<open>
  The snapshot is \<open>None\<close> when the document does not exist, and the document's data
  otherwise.
\<close>

definition snapshotLots :: "jsvalue option \<Rightarrow> jsvalue" where
  "snapshotLots snapshot = (case snapshot of None \<Rightarrow> JUndefined | Some d \<Rightarrow> getProp d ''lots'')"

definition computeFifoPositionPayload ::
  "jsvalue option \<Rightarrow> string \<Rightarrow> SpotSide \<Rightarrow> jsnum \<Rightarrow> jsnum \<Rightarrow> real \<Rightarrow> error + PositionPayload" where
  "computeFifoPositionPayload snapshot symb sd q p t =
     (let currentLots = normalizeFifoLots (snapshotLots snapshot)
      in case sd of
           Buy \<Rightarrow>
             Inr (mkPayload symb t
                    (finishLots (currentLots @ [\<lparr>qty = round6 q, price = p, ts = t\<rparr>])))
         | Sell \<Rightarrow>
             (case sellLoop q [] currentLots of
                (remaining, updated) \<Rightarrow>
                  if jsGt remaining (Fin FIFO_EPSILON) then Inl InsufficientFifoLots
                  else Inr (mkPayload symb t (finishLots updated))))"

text \<open>The payload as the store holds it after \<open>tx.set\<close>.\<close>

definition lotToJs :: "FifoLotDoc \<Rightarrow> jsvalue" where
  "lotToJs lot =
     JObject [(''qty'', JNumber (qty lot)), (''price'', JNumber (price lot)),
              (''ts'', JNumber (Fin (ts lot)))]"

definition payloadFields :: "PositionPayload \<Rightarrow> (string \<times> jsvalue) list" where
  "payloadFields pl =
     [(''symbol'', JString (p_symbol pl)), (''qty'', JNumber (p_qty pl)),
      (''avgPrice'', JNumber (p_avgPrice pl)),
      (''lots'', JArray (map lotToJs (p_lots pl))),
      (''updatedAt'', JNumber (Fin (p_updatedAt pl)))]"


section \<open>The ledger mutation: \<open>submitSpotOrder\<close>\<close>

text \<open>
  The account in the store: the user document (absent, or its fields), one position
  document per symbol, and the order log. Documents are field lists; a lookup takes the
  first binding of a key.
\<close>

record ledger =
  userDoc :: "jsvalue option"
  positionDocs :: "string \<Rightarrow> jsvalue option"
  orderDocs :: "jsvalue list"

record SpotOrderParams =
  s_symbol :: string
  s_side :: SpotSide
  s_qty :: jsnum
  s_fillPrice :: jsnum
  s_type :: string
  s_lotTimestamp :: real
  s_extra :: "(string \<times> jsvalue) list"

definition snapshotData :: "jsvalue option \<Rightarrow> jsvalue" where
  "snapshotData snapshot = (case snapshot of None \<Rightarrow> JObject [] | Some d \<Rightarrow> d)"

definition computeCashAfterDelta :: "jsvalue option \<Rightarrow> jsnum \<Rightarrow> real \<Rightarrow> jsnum" where
  "computeCashAfterDelta snapshot delta fallbackInitial =
     (let dat = snapshotData snapshot;
          base = (case sanitizeNumber (getProp dat ''cash'') of
                    Some c \<Rightarrow> c
                  | None \<Rightarrow>
                      (case sanitizeNumber (getProp dat ''initialCredits'') of
                         Some i \<Rightarrow> i
                       | None \<Rightarrow> fallbackInitial))
      in round6 (jsAdd (Fin base) delta))"

text \<open>\<open>tx.set(ref, fields, {merge: true})\<close>: the new fields replace the old ones of the same name.\<close>

definition setMerge :: "jsvalue option \<Rightarrow> (string \<times> jsvalue) list \<Rightarrow> jsvalue" where
  "setMerge old new =
     (case old of
        Some (JObject fs) \<Rightarrow> JObject (new @ filter (\<lambda>kv. fst kv \<notin> set (map fst new)) fs)
      | _ \<Rightarrow> JObject new)"

datatype txWrite =
    SetUser "(string \<times> jsvalue) list"
  | SetPosition string "(string \<times> jsvalue) list"
  | AddOrder jsvalue

fun applyWrite :: "txWrite \<Rightarrow> ledger \<Rightarrow> ledger" where
  "applyWrite (SetUser fs) st = st\<lparr>userDoc := Some (setMerge (userDoc st) fs)\<rparr>"
| "applyWrite (SetPosition symb fs) st =
     st\<lparr>positionDocs := (positionDocs st)(symb := Some (setMerge (positionDocs st symb) fs))\<rparr>"
| "applyWrite (AddOrder d) st = st\<lparr>orderDocs := orderDocs st @ [d]\<rparr>"

text \<open>
  \<open>runTransaction\<close>: the body reads the store and queues its writes; they are applied
  together when the body returns, and none is when it throws.
\<close>

definition runTransaction :: "ledger \<Rightarrow> (ledger \<Rightarrow> error + txWrite list) \<Rightarrow> (error + unit) \<times> ledger" where
  "runTransaction st body =
     (case body st of
        Inl e \<Rightarrow> (Inl e, st)
      | Inr ws \<Rightarrow> (Inr (), fold applyWrite ws st))"

definition sideName :: "SpotSide \<Rightarrow> string" where
  "sideName sd = (case sd of Buy \<Rightarrow> ''buy'' | Sell \<Rightarrow> ''sell'')"

text \<open>The order record; the fields of \<open>extra\<close> are spread last and so come first in a lookup.\<close>

definition orderRecord :: "string \<Rightarrow> SpotSide \<Rightarrow> real \<Rightarrow> string \<Rightarrow> real \<Rightarrow> real \<Rightarrow> (string \<times> jsvalue) list \<Rightarrow> jsvalue" where
  "orderRecord symb sd q ty p serverTime extra =
     JObject (extra @
       [(''symbol'', JString symb), (''side'', JString (sideName sd)), (''qty'', JNumber (Fin q)),
        (''type'', JString ty), (''status'', JString ''filled''),
        (''fillPrice'', JNumber (Fin p)), (''ts'', JTimestamp serverTime)])"

definition txBody :: "string \<Rightarrow> SpotSide \<Rightarrow> real \<Rightarrow> real \<Rightarrow> string \<Rightarrow> real \<Rightarrow> (string \<times> jsvalue) list \<Rightarrow> real \<Rightarrow> jsnum \<Rightarrow> ledger \<Rightarrow> error + txWrite list" where
  "txBody symb sd q p ty lotTimestamp extra serverTime cashDelta st =
     (let userSnap = userDoc st;
          positionSnap = positionDocs st symb;
          nextCash = computeCashAfterDelta userSnap cashDelta DEFAULT_INITIAL_CASH
      in case computeFifoPositionPayload positionSnap symb sd (Fin q) (Fin p) lotTimestamp of
           Inl e \<Rightarrow> Inl e
         | Inr positionPayload \<Rightarrow>
             Inr [SetUser [(''cash'', JNumber nextCash)],
                  SetPosition symb (payloadFields positionPayload),
                  AddOrder (orderRecord symb sd q ty p serverTime extra)])"

text \<open>
  \<open>serverTime\<close> is the value the store gives \<open>serverTimestamp()\<close>. The result is the
  outcome of the call together with the store after it. The parameters \<open>s_type\<close> and
  \<open>s_lotTimestamp\<close> hold the values after the source's defaults (\<open>"MARKET"\<close>, \<open>Date.now()\<close>)
  have been filled in, \<open>s_extra\<close> the optional extra fields (none when omitted).
\<close>

definition submitSpotOrder :: "real \<Rightarrow> ledger \<Rightarrow> SpotOrderParams \<Rightarrow> (error + unit) \<times> ledger" where
  "submitSpotOrder serverTime st params =
     (case s_qty params of
        Fin q \<Rightarrow>
          if q \<le> 0 then (Inl QuantityMustBePositive, st)
          else
            (case s_fillPrice params of
               Fin p \<Rightarrow>
                 if p \<le> 0 then (Inl PriceMustBePositive, st)
                 else
                   let cashDelta =
                         jsMul (jsMul (Fin (case s_side params of Buy \<Rightarrow> - 1 | Sell \<Rightarrow> 1)) (Fin q))
                           (Fin p)
                   in runTransaction st
                        (txBody (s_symbol params) (s_side params) q p (s_type params)
                           (s_lotTimestamp params) (s_extra params) serverTime cashDelta)
             | _ \<Rightarrow> (Inl PriceMustBePositive, st))
      | _ \<Rightarrow> (Inl QuantityMustBePositive, st))"


section \<open>The read side: normalised orders, closed trades, open positions, statistics\<close>

text \<open>A normalised order: its quantity and price have passed \<open>sanitizeNumber\<close>, so they are finite.\<close>

record NormalizedOrder =
  o_symbol :: string
  o_side :: SpotSide
  o_qty :: real
  o_fillPrice :: real
  o_ts :: real

record QueryDocumentSnapshot =
  d_id :: string
  d_data :: jsvalue

text \<open>
  \<open>String.prototype.toLowerCase\<close> on the letters that matter here: an ASCII capital
  (codes 65 to 90) gets bit 5 set, every other byte is kept.
\<close>

fun toLowerChar :: "char \<Rightarrow> char" where
  "toLowerChar (Char b0 b1 b2 b3 b4 b5 b6 b7) =
     (let n = (of_char (Char b0 b1 b2 b3 b4 b5 b6 b7) :: nat)
      in if 65 \<le> n \<and> n \<le> 90 then Char b0 b1 b2 b3 b4 True b6 b7
         else Char b0 b1 b2 b3 b4 b5 b6 b7)"

definition toLowerCase :: "string \<Rightarrow> string" where
  "toLowerCase s = map toLowerChar s"

text \<open>
  The callback of \<open>docs.map\<close>; \<open>now\<close> is what \<open>Date.now()\<close> returns for this record.
\<close>

definition normalizeOrder :: "real \<Rightarrow> QueryDocumentSnapshot \<Rightarrow> NormalizedOrder option" where
  "normalizeOrder now order =
     (let dat = d_data order;
          symbolRaw = (case getProp dat ''symbol'' of JString s \<Rightarrow> s | _ \<Rightarrow> d_id order);
          sideRaw = (case getProp dat ''side'' of JString s \<Rightarrow> toLowerCase s | _ \<Rightarrow> []);
          q = sanitizeNumber (getProp dat ''qty'');
          fp = sanitizeNumber (getProp dat ''fillPrice'');
          t = (case getProp dat ''ts'' of
                 JNumber (Fin v) \<Rightarrow> v
               | JTimestamp ms \<Rightarrow> ms
               | JDate ms \<Rightarrow> ms
               | _ \<Rightarrow> now)
      in if symbolRaw = [] \<or> (sideRaw \<noteq> ''buy'' \<and> sideRaw \<noteq> ''sell'') then None
         else
           (case (q, fp) of
              (Some q', Some fp') \<Rightarrow>
                if q' \<le> STATS_EPSILON \<or> fp' \<le> STATS_EPSILON then None
                else Some \<lparr>o_symbol = symbolRaw,
                           o_side = (if sideRaw = ''buy'' then Buy else Sell),
                           o_qty = q', o_fillPrice = fp', o_ts = t\<rparr>
            | _ \<Rightarrow> None))"

text \<open>\<open>clock i\<close> is the reading of \<open>Date.now()\<close> while the \<open>i\<close>-th record is mapped.\<close>

definition normalizeOrders :: "(nat \<Rightarrow> real) \<Rightarrow> QueryDocumentSnapshot list \<Rightarrow> NormalizedOrder list" where
  "normalizeOrders clock docs =
     sort_key o_ts
       (List.map_filter (\<lambda>(i, d). normalizeOrder (clock i) d) (enumerate 0 docs))"

subsection \<open>\<open>computeBotStats\<close>\<close>

record BookLot =
  b_qty :: jsnum
  b_price :: real

text \<open>
  The \<open>while (remaining > STATS_EPSILON && book.length)\<close> loop of one sell order. The head lot
  is updated in place and shifted out once its quantity is at most the epsilon.
\<close>

function statsLoop :: "real \<Rightarrow> jsnum \<Rightarrow> jsnum \<Rightarrow> BookLot list \<Rightarrow> jsnum \<times> jsnum \<times> BookLot list" where
  "statsLoop fillPrice remaining orderPnl [] = (remaining, orderPnl, [])"
| "statsLoop fillPrice remaining orderPnl (lot # rest) =
     (if jsGt remaining (Fin STATS_EPSILON) then
        let consume = Math_min (b_qty lot) remaining;
            orderPnl' = jsAdd orderPnl (jsMul (jsSub (Fin fillPrice) (Fin (b_price lot))) consume);
            lotQty = jsSub (b_qty lot) consume;
            remaining' = jsSub remaining consume
        in if jsLe lotQty (Fin STATS_EPSILON) then statsLoop fillPrice remaining' orderPnl' rest
           else statsLoop fillPrice remaining' orderPnl' (lot\<lparr>b_qty := lotQty\<rparr> # rest)
      else (remaining, orderPnl, lot # rest))"
  by pat_completeness auto
termination
proof (relation "measure (\<lambda>(fillPrice, remaining, orderPnl, book).
         3 * length book
         + (if jsGt remaining (Fin STATS_EPSILON)
            then (case book of [] \<Rightarrow> 0 | lot # rest \<Rightarrow> if b_qty lot = NaN then 1 else 2)
            else 0))", goal_cases)
  case 1
  show ?case by simp
next
  case (2 fillPrice remaining orderPnl lot rest consume orderPnl' lotQty remaining')
  then show ?case by (simp split: list.splits)
next
  case (3 fillPrice remaining orderPnl lot rest consume orderPnl' lotQty remaining')
  have "fl 0 = 0" by (simp add: fl_def rne_def)
  then have z: "toDouble 0 = Fin 0" by (simp add: toDouble_def)
  have "0 \<le> real_of_int (rne ((1 / 1000000) / ulp (1 / 1000000))) * ulp (1 / 1000000)"
    by (intro mult_nonneg_nonneg) (simp_all add: rne_def Let_def ulp_def)
  then have e: "0 \<le> STATS_EPSILON" by (simp add: STATS_EPSILON_def fl_def)
  from 3 e show ?case
    by (cases "b_qty lot"; cases remaining)
      (auto simp: jsGt_def jsSub_def Math_min_def z split: if_splits)
qed

record StatsAcc =
  fifoBooks :: "string \<rightharpoonup> BookLot list"
  acc_realizedPnl :: jsnum
  acc_wins :: nat
  acc_losses :: nat
  acc_closedTrades :: nat

definition statsStep :: "StatsAcc \<Rightarrow> NormalizedOrder \<Rightarrow> StatsAcc" where
  "statsStep acc order =
     (let book = (case fifoBooks acc (o_symbol order) of None \<Rightarrow> [] | Some b \<Rightarrow> b)
      in case o_side order of
           Buy \<Rightarrow>
             acc\<lparr>fifoBooks := (fifoBooks acc)(o_symbol order \<mapsto>
                    book @ [\<lparr>b_qty = Fin (o_qty order), b_price = o_fillPrice order\<rparr>])\<rparr>
         | Sell \<Rightarrow>
             (case statsLoop (o_fillPrice order) (Fin (o_qty order)) (Fin 0) book of
                (remaining, orderPnl, book') \<Rightarrow>
                  let acc' = acc\<lparr>fifoBooks := (fifoBooks acc)(o_symbol order \<mapsto> book')\<rparr>
                  in if jsLe remaining (Fin STATS_EPSILON) then
                       acc'\<lparr>acc_realizedPnl := jsAdd (acc_realizedPnl acc) orderPnl,
                            acc_closedTrades := acc_closedTrades acc + 1,
                            acc_wins := (if jsGt orderPnl (Fin STATS_EPSILON) then acc_wins acc + 1
                                         else acc_wins acc),
                            acc_losses := (if jsGt orderPnl (Fin STATS_EPSILON) then acc_losses acc
                                           else if jsLt orderPnl (Fin (- STATS_EPSILON))
                                                then acc_losses acc + 1
                                           else acc_losses acc)\<rparr>
                     else acc'))"

definition statsInit :: StatsAcc where
  "statsInit = \<lparr>fifoBooks = Map.empty, acc_realizedPnl = Fin 0, acc_wins = 0, acc_losses = 0,
                acc_closedTrades = 0\<rparr>"

record BotStats =
  tradesCount :: nat
  s_pnl :: jsnum
  roi :: jsnum
  realizedPnl :: jsnum
  wins :: nat
  losses :: nat
  winRate :: jsnum
  closedTrades :: nat

definition computeBotStats :: "jsnum \<Rightarrow> jsnum \<Rightarrow> NormalizedOrder list \<Rightarrow> BotStats" where
  "computeBotStats initialCredits totalValue orders =
     (let acc = foldl statsStep statsInit orders
      in \<lparr>tradesCount = length orders,
          s_pnl = round6 (jsSub totalValue initialCredits),
          roi = (if jsGt initialCredits (Fin STATS_EPSILON)
                 then jsDiv (jsSub totalValue initialCredits) initialCredits else Fin 0),
          realizedPnl = round6 (acc_realizedPnl acc),
          wins = acc_wins acc,
          losses = acc_losses acc,
          winRate = (if acc_closedTrades acc > 0
                     then jsDiv (Fin (real (acc_wins acc))) (Fin (real (acc_closedTrades acc)))
                     else Fin 0),
          closedTrades = acc_closedTrades acc\<rparr>)"


subsection \<open>\<open>buildClosedTradeEntries\<close>\<close>

record ClosedTradeEntry =
  c_symbol :: string
  c_qty :: jsnum
  buyPrice :: jsnum
  sellPrice :: jsnum
  buyTs :: real
  sellTs :: real
  pnl :: jsnum

function closeLoop ::
  "NormalizedOrder \<Rightarrow> jsnum \<Rightarrow> FifoLotDoc list \<Rightarrow> ClosedTradeEntry list
     \<Rightarrow> FifoLotDoc list \<times> ClosedTradeEntry list" where
  "closeLoop order remaining [] entries = ([], entries)"
| "closeLoop order remaining (lot # rest) entries =
     (if jsGt remaining (Fin STATS_EPSILON) then
        let consume = Math_min (qty lot) remaining;
            entries' = entries @
              [\<lparr>c_symbol = o_symbol order, c_qty = round6 consume, buyPrice = price lot,
                sellPrice = Fin (o_fillPrice order), buyTs = ts lot, sellTs = o_ts order,
                pnl = round6 (jsMul (jsSub (Fin (o_fillPrice order)) (price lot)) consume)\<rparr>];
            lotQty = round6 (jsSub (qty lot) consume);
            remaining' = round6 (jsSub remaining consume)
        in if jsLe lotQty (Fin STATS_EPSILON) then closeLoop order remaining' rest entries'
           else closeLoop order remaining' (lot\<lparr>qty := lotQty\<rparr> # rest) entries'
      else (lot # rest, entries))"
  by pat_completeness auto
termination
proof (relation "measure (\<lambda>(order, remaining, lots, entries).
         3 * length lots
         + (if jsGt remaining (Fin STATS_EPSILON)
            then (case lots of [] \<Rightarrow> 0 | lot # rest \<Rightarrow> if qty lot = NaN then 1 else 2)
            else 0))", goal_cases)
  case 1
  show ?case by simp
next
  case (2 order remaining lot rest entries consume entries' lotQty remaining')
  then show ?case by (simp split: list.splits)
next
  case (3 order remaining lot rest entries consume entries' lotQty remaining')
  have "fl 0 = 0" by (simp add: fl_def rne_def)
  then have z: "toDouble 0 = Fin 0" by (simp add: toDouble_def)
  have "0 \<le> real_of_int (rne ((1 / 1000000) / ulp (1 / 1000000))) * ulp (1 / 1000000)"
    by (intro mult_nonneg_nonneg) (simp_all add: rne_def Let_def ulp_def)
  then have e: "0 \<le> STATS_EPSILON" by (simp add: STATS_EPSILON_def fl_def)
  from 3 e show ?case
    by (cases "qty lot"; cases remaining)
      (auto simp: jsGt_def jsSub_def Math_min_def round6_def z split: if_splits)
qed

definition closeStep ::
  "(string \<rightharpoonup> FifoLotDoc list) \<times> ClosedTradeEntry list \<Rightarrow> NormalizedOrder
     \<Rightarrow> (string \<rightharpoonup> FifoLotDoc list) \<times> ClosedTradeEntry list" where
  "closeStep st order =
     (let perSymbol = fst st; entries = snd st;
          lots = (case perSymbol (o_symbol order) of None \<Rightarrow> [] | Some l \<Rightarrow> l)
      in case o_side order of
           Buy \<Rightarrow>
             (perSymbol(o_symbol order \<mapsto>
                lots @ [\<lparr>qty = Fin (o_qty order), price = Fin (o_fillPrice order),
                         ts = o_ts order\<rparr>]),
              entries)
         | Sell \<Rightarrow>
             (case closeLoop order (Fin (o_qty order)) lots entries of
                (lots', entries') \<Rightarrow> (perSymbol(o_symbol order \<mapsto> lots'), entries')))"

definition buildClosedTradeEntries :: "NormalizedOrder list \<Rightarrow> ClosedTradeEntry list" where
  "buildClosedTradeEntries orders = snd (foldl closeStep (Map.empty, []) orders)"


subsection \<open>\<open>aggregateOpenPositions\<close>\<close>

record AggregatedPosition =
  a_symbol :: string
  a_lots :: "FifoLotDoc list"
  a_totalQty :: jsnum
  a_avgPrice :: jsnum

text \<open>
  A JavaScript \<open>Map\<close> iterates in insertion order; setting a key that is present keeps
  its place.
\<close>

fun mapSet :: "'k \<Rightarrow> 'v \<Rightarrow> ('k \<times> 'v) list \<Rightarrow> ('k \<times> 'v) list" where
  "mapSet k v [] = [(k, v)]"
| "mapSet k v (kv # m) = (if fst kv = k then (k, v) # m else kv # mapSet k v m)"

text \<open>
  The callback of \<open>agg.lots.map\<close> in the sell branch reads and writes the variable
  \<open>remaining\<close> of the enclosing scope; here it is threaded through the list.
\<close>

fun consumeLots :: "jsnum \<Rightarrow> FifoLotDoc list \<Rightarrow> FifoLotDoc list" where
  "consumeLots remaining [] = []"
| "consumeLots remaining (lot # rest) =
     (if jsLe remaining (Fin STATS_EPSILON) then lot # consumeLots remaining rest
      else
        let consume = Math_min (qty lot) remaining
        in lot\<lparr>qty := jsSub (qty lot) consume\<rparr> # consumeLots (jsSub remaining consume) rest)"

definition aggStep ::
  "(string \<times> AggregatedPosition) list \<Rightarrow> NormalizedOrder \<Rightarrow> (string \<times> AggregatedPosition) list" where
  "aggStep perSymbol order =
     (let agg = (case map_of perSymbol (o_symbol order) of
                   None \<Rightarrow> \<lparr>a_symbol = o_symbol order, a_lots = [], a_totalQty = Fin 0,
                            a_avgPrice = Fin 0\<rparr>
                 | Some a \<Rightarrow> a)
      in case o_side order of
           Buy \<Rightarrow>
             mapSet (o_symbol order)
               (agg\<lparr>a_lots := a_lots agg @
                       [\<lparr>qty = Fin (o_qty order), price = Fin (o_fillPrice order),
                         ts = o_ts order\<rparr>],
                    a_totalQty := jsAdd (a_totalQty agg) (Fin (o_qty order))\<rparr>)
               perSymbol
         | Sell \<Rightarrow>
             mapSet (o_symbol order)
               (agg\<lparr>a_lots := filter (\<lambda>lot. jsGt (qty lot) (Fin STATS_EPSILON))
                                 (consumeLots (Fin (o_qty order)) (a_lots agg)),
                    a_totalQty := Math_max (Fin 0) (jsSub (a_totalQty agg) (Fin (o_qty order)))\<rparr>)
               perSymbol)"

definition aggFinish :: "AggregatedPosition \<Rightarrow> AggregatedPosition" where
  "aggFinish agg =
     (let totalCost = foldl (\<lambda>acc lot. jsAdd acc (jsMul (qty lot) (price lot))) (Fin 0) (a_lots agg);
          totalQty = foldl (\<lambda>acc lot. jsAdd acc (qty lot)) (Fin 0) (a_lots agg);
          avgPrice = (if jsGt totalQty (Fin STATS_EPSILON) then jsDiv totalCost totalQty else Fin 0)
      in \<lparr>a_symbol = a_symbol agg,
          a_lots = map (\<lambda>lot. \<lparr>qty = round6 (qty lot), price = round6 (price lot), ts = ts lot\<rparr>)
                     (filter (\<lambda>lot. jsGt (qty lot) (Fin STATS_EPSILON)) (a_lots agg)),
          a_totalQty = round6 totalQty,
          a_avgPrice = round6 avgPrice\<rparr>)"

definition aggregateOpenPositions :: "NormalizedOrder list \<Rightarrow> AggregatedPosition list" where
  "aggregateOpenPositions orders =
     filter (\<lambda>agg. jsGt (a_totalQty agg) (Fin STATS_EPSILON))
       (map aggFinish (map snd (foldl aggStep [] orders)))"


section \<open>Replaying a fill history\<close>

text \<open>
  The write side applied fill by fill: each fill reads the position document of its symbol,
  computes the payload and stores it, as \<open>submitSpotOrder\<close> does inside its transaction.
  A fill the write side rejects ends the replay with its error.
\<close>

definition writeStep ::
  "(string \<Rightarrow> jsvalue option) \<Rightarrow> NormalizedOrder \<Rightarrow> error + (string \<Rightarrow> jsvalue option)" where
  "writeStep docs order =
     (case computeFifoPositionPayload (docs (o_symbol order)) (o_symbol order) (o_side order)
             (Fin (o_qty order)) (Fin (o_fillPrice order)) (o_ts order) of
        Inl e \<Rightarrow> Inl e
      | Inr pl \<Rightarrow>
          Inr (docs(o_symbol order := Some (setMerge (docs (o_symbol order)) (payloadFields pl)))))"

fun replayWrite ::
  "(string \<Rightarrow> jsvalue option) \<Rightarrow> NormalizedOrder list \<Rightarrow> error + (string \<Rightarrow> jsvalue option)" where
  "replayWrite docs [] = Inr docs"
| "replayWrite docs (order # orders) =
     (case writeStep docs order of
        Inl e \<Rightarrow> Inl e
      | Inr docs' \<Rightarrow> replayWrite docs' orders)"

text \<open>The lots a position document holds, as the write side reads them.\<close>

definition heldLots :: "(string \<Rightarrow> jsvalue option) \<Rightarrow> string \<Rightarrow> FifoLotDoc list" where
  "heldLots docs symb = normalizeFifoLots (snapshotLots (docs symb))"

text \<open>
  The lots the read side reports for a symbol, looked up as the hook does
  (\<open>aggregatedPositions.find\<close>, then \<open>aggregated?.lots\<close>).
\<close>

definition readLots :: "AggregatedPosition list \<Rightarrow> string \<Rightarrow> FifoLotDoc list" where
  "readLots aggs symb =
     (case find (\<lambda>entry. a_symbol entry = symb) aggs of None \<Rightarrow> [] | Some a \<Rightarrow> a_lots a)"

definition scenarioA :: "NormalizedOrder list" where
  "scenarioA =
     [\<lparr>o_symbol = ''AAPL'', o_side = Buy, o_qty = 10, o_fillPrice = 100, o_ts = 1\<rparr>,
      \<lparr>o_symbol = ''AAPL'', o_side = Buy, o_qty = 5, o_fillPrice = 110, o_ts = 2\<rparr>,
      \<lparr>o_symbol = ''AAPL'', o_side = Sell, o_qty = 12, o_fillPrice = 120, o_ts = 3\<rparr>]"


section \<open>What the normaliser is to keep\<close>

text \<open>
  The rule for keeping a raw record, written from the contract of the normaliser rather
  than from its code: the symbol is the \<open>symbol\<close> field when that is a string and the
  document id otherwise, and must not be empty; the side must be a string that lowercases
  to buy or sell; quantity and fill price must be finite numbers above the epsilon 1e-6.
  The fill of a kept record takes its time from a numeric, \<open>Timestamp\<close> or \<open>Date\<close>
  field and from the clock otherwise.
\<close>

definition symbolOf :: "QueryDocumentSnapshot \<Rightarrow> string" where
  "symbolOf d = (case getProp (d_data d) ''symbol'' of JString s \<Rightarrow> s | _ \<Rightarrow> d_id d)"

definition sideOf :: "QueryDocumentSnapshot \<Rightarrow> SpotSide option" where
  "sideOf d =
     (case getProp (d_data d) ''side'' of
        JString s \<Rightarrow>
          if toLowerCase s = ''buy'' then Some Buy
          else if toLowerCase s = ''sell'' then Some Sell else None
      | _ \<Rightarrow> None)"

definition amountOf :: "QueryDocumentSnapshot \<Rightarrow> string \<Rightarrow> real option" where
  "amountOf d field =
     (case getProp (d_data d) field of
        JNumber (Fin v) \<Rightarrow> if v > STATS_EPSILON then Some v else None
      | _ \<Rightarrow> None)"

definition timeOf :: "real \<Rightarrow> QueryDocumentSnapshot \<Rightarrow> real" where
  "timeOf now d =
     (case getProp (d_data d) ''ts'' of
        JNumber (Fin v) \<Rightarrow> v | JTimestamp ms \<Rightarrow> ms | JDate ms \<Rightarrow> ms | _ \<Rightarrow> now)"

definition wellFormedRecord :: "QueryDocumentSnapshot \<Rightarrow> bool" where
  "wellFormedRecord d =
     (symbolOf d \<noteq> [] \<and> sideOf d \<noteq> None \<and> amountOf d ''qty'' \<noteq> None
      \<and> amountOf d ''fillPrice'' \<noteq> None)"

definition fillOf :: "real \<Rightarrow> QueryDocumentSnapshot \<Rightarrow> NormalizedOrder" where
  "fillOf now d =
     \<lparr>o_symbol = symbolOf d,
      o_side = (case sideOf d of Some sd \<Rightarrow> sd | None \<Rightarrow> Sell),
      o_qty = (case amountOf d ''qty'' of Some v \<Rightarrow> v | None \<Rightarrow> 0),
      o_fillPrice = (case amountOf d ''fillPrice'' of Some v \<Rightarrow> v | None \<Rightarrow> 0),
      o_ts = timeOf now d\<rparr>"

definition rawDoc ::
  "string \<Rightarrow> jsvalue \<Rightarrow> jsvalue \<Rightarrow> jsvalue \<Rightarrow> jsvalue \<Rightarrow> jsvalue \<Rightarrow> QueryDocumentSnapshot" where
  "rawDoc ident symb sd q fp t =
     \<lparr>d_id = ident,
      d_data = JObject [(''symbol'', symb), (''side'', sd), (''qty'', q), (''fillPrice'', fp),
                        (''ts'', t)]\<rparr>"

definition rawDocs :: "QueryDocumentSnapshot list" where
  "rawDocs =
     [rawDoc ''o1'' (JString ''AAPL'') (JString ''BUY'') (JNumber (Fin 2)) (JNumber (Fin 10))
        (JNumber (Fin 5)),
      rawDoc ''o2'' (JString ''AAPL'') (JString ''hold'') (JNumber (Fin 2)) (JNumber (Fin 10))
        (JNumber (Fin 1)),
      rawDoc ''MSFT'' JUndefined (JString ''sell'') (JNumber (Fin 1)) (JNumber (Fin 3))
        (JTimestamp 2),
      rawDoc ''o4'' (JString []) (JString ''buy'') (JNumber (Fin 1)) (JNumber (Fin 3))
        (JNumber (Fin 3)),
      rawDoc ''o5'' (JString ''AAPL'') (JString ''buy'') (JNumber NaN) (JNumber (Fin 3))
        (JNumber (Fin 4)),
      rawDoc ''o6'' (JString ''AAPL'') (JString ''buy'') (JNumber (Fin 1)) (JString ''3'')
        (JNumber (Fin 4))]"

text \<open>The double nearest to 4295000000.000011.\<close>

definition bigInput :: real where
  "bigInput = 1125908480000003 / 262144"


section \<open>FIFO as the specification words it\<close>

text \<open>
  The lot ledger of the specification, with exact quantities: a buy opens a lot, a sell
  takes its quantity from the oldest lots first, removing each lot it uses up and reducing
  the first one it does not. This is what the two sides are compared with, on quantities for
  which double arithmetic is exact. None of it is taken from the code.
\<close>

record SpecLot =
  l_qty :: real
  l_price :: real
  l_ts :: real

definition lotOfOrder :: "NormalizedOrder \<Rightarrow> SpecLot" where
  "lotOfOrder order = \<lparr>l_qty = o_qty order, l_price = o_fillPrice order, l_ts = o_ts order\<rparr>"

fun fifoConsume :: "real \<Rightarrow> SpecLot list \<Rightarrow> SpecLot list" where
  "fifoConsume q [] = []"
| "fifoConsume q (lot # rest) =
     (if q \<le> 0 then lot # rest
      else if q < l_qty lot then lot\<lparr>l_qty := l_qty lot - q\<rparr> # rest
      else fifoConsume (q - l_qty lot) rest)"

text \<open>The lots of every symbol after a history, new lots going to the end of the list.\<close>

definition fifoStep :: "(string \<Rightarrow> SpecLot list) \<Rightarrow> NormalizedOrder \<Rightarrow> (string \<Rightarrow> SpecLot list)" where
  "fifoStep book order =
     (case o_side order of
        Buy \<Rightarrow> book(o_symbol order := book (o_symbol order) @ [lotOfOrder order])
      | Sell \<Rightarrow> book(o_symbol order := fifoConsume (o_qty order) (book (o_symbol order))))"

definition fifoLots :: "NormalizedOrder list \<Rightarrow> string \<Rightarrow> SpecLot list" where
  "fifoLots orders = foldl fifoStep (\<lambda>s. []) orders"

text \<open>The same with the list kept in order of acquisition time, a new lot going after the lots of its time.\<close>

definition fifoStepByTime :: "(string \<Rightarrow> SpecLot list) \<Rightarrow> NormalizedOrder \<Rightarrow> (string \<Rightarrow> SpecLot list)" where
  "fifoStepByTime book order =
     (case o_side order of
        Buy \<Rightarrow> book(o_symbol order := sort_key l_ts (book (o_symbol order) @ [lotOfOrder order]))
      | Sell \<Rightarrow> book(o_symbol order := fifoConsume (o_qty order) (book (o_symbol order))))"

definition fifoLotsByTime :: "NormalizedOrder list \<Rightarrow> string \<Rightarrow> SpecLot list" where
  "fifoLotsByTime orders = foldl fifoStepByTime (\<lambda>s. []) orders"

text \<open>
  The lots a sell of quantity \<open>q\<close> is matched with, oldest first, each with the quantity
  taken from it; and the profit of these matches, (sell price - buy price) * quantity summed
  in that order in double arithmetic.
\<close>

fun fifoMatches :: "real \<Rightarrow> SpecLot list \<Rightarrow> (SpecLot \<times> real) list" where
  "fifoMatches q [] = []"
| "fifoMatches q (lot # rest) =
     (if q \<le> 0 then []
      else (lot, min (l_qty lot) q) # fifoMatches (q - min (l_qty lot) q) rest)"

definition fifoPnl :: "real \<Rightarrow> (SpecLot \<times> real) list \<Rightarrow> jsnum" where
  "fifoPnl fillPrice ms =
     foldl (\<lambda>acc m. jsAdd acc (jsMul (jsSub (Fin fillPrice) (Fin (l_price (fst m)))) (Fin (snd m))))
       (Fin 0) ms"

text \<open>A lot as the store holds it and as the read side reports it: the price rounded to six decimals.\<close>

definition docLot :: "SpecLot \<Rightarrow> FifoLotDoc" where
  "docLot lot = \<lparr>qty = Fin (l_qty lot), price = round6 (Fin (l_price lot)), ts = l_ts lot\<rparr>"

text \<open>The quantity of a lot as a real number (0 if it is not finite).\<close>

definition qtyOf :: "FifoLotDoc \<Rightarrow> real" where
  "qtyOf lot = (case qty lot of Fin x \<Rightarrow> x | _ \<Rightarrow> 0)"

text \<open>
  Signed quantity of a fill, net quantity of a symbol over a history, and a history without
  overselling: after every prefix, no symbol has sold more than it has bought (so each sell
  is at most what is held when it arrives).
\<close>

definition signedQty :: "NormalizedOrder \<Rightarrow> real" where
  "signedQty order = (case o_side order of Buy \<Rightarrow> o_qty order | Sell \<Rightarrow> - o_qty order)"

definition netQty :: "string \<Rightarrow> NormalizedOrder list \<Rightarrow> real" where
  "netQty symb orders = sum_list (map signedQty (filter (\<lambda>order. o_symbol order = symb) orders))"

definition noOverselling :: "NormalizedOrder list \<Rightarrow> bool" where
  "noOverselling orders =
     (\<forall>n \<in> {..length orders}. \<forall>symb \<in> set (map o_symbol orders). 0 \<le> netQty symb (take n orders))"

text \<open>
  Quantities on which the arithmetic of both sides is exact: positive whole multiples of
  1/64 (whole shares among them) up to 4,294,967,295. Prices up to 4,294,967,295 are
  those \<open>round6\<close> leaves alone once rounded. The total bought bounds every sum of lots.
\<close>

definition exactQty :: "real \<Rightarrow> bool" where
  "exactQty x = (0 < x \<and> x \<le> 4294967295 \<and> of_int \<lfloor>64 * x\<rfloor> = 64 * x)"

definition gridFills :: "NormalizedOrder list \<Rightarrow> bool" where
  "gridFills orders = (\<forall>order \<in> set orders. exactQty (o_qty order))"

definition pricesInRange :: "NormalizedOrder list \<Rightarrow> bool" where
  "pricesInRange orders = (\<forall>order \<in> set orders. \<bar>o_fillPrice order\<bar> \<le> 4294967295)"

definition boughtQty :: "NormalizedOrder list \<Rightarrow> real" where
  "boughtQty orders = sum_list (map o_qty (filter (\<lambda>order. o_side order = Buy) orders))"

text \<open>
  The total open quantity over all symbols: on the read side over the reported positions,
  on the write side over the position documents of the symbols of the history.
\<close>

definition openQtyRead :: "NormalizedOrder list \<Rightarrow> real" where
  "openQtyRead orders =
     sum_list (map (\<lambda>agg. sum_list (map qtyOf (a_lots agg))) (aggregateOpenPositions orders))"

definition openQtyWrite :: "NormalizedOrder list \<Rightarrow> error + real" where
  "openQtyWrite orders =
     (case replayWrite (\<lambda>s. None) orders of
        Inl e \<Rightarrow> Inl e
      | Inr docs \<Rightarrow>
          Inr (sum_list (map (\<lambda>symb. sum_list (map qtyOf (heldLots docs symb)))
                 (remdups (map o_symbol orders)))))"


section \<open>Concrete stores and fills\<close>

definition ledgerC :: ledger where
  "ledgerC = \<lparr>userDoc = Some (JObject [(''cash'', JNumber (Fin 1000))]),
              positionDocs = (\<lambda>s. None), orderDocs = []\<rparr>"

definition ledgerHeld3 :: ledger where
  "ledgerHeld3 =
     \<lparr>userDoc = Some (JObject [(''cash'', JNumber (Fin 1000))]),
      positionDocs = (\<lambda>s. if s = ''AAPL''
         then Some (JObject [(''symbol'', JString ''AAPL''), (''qty'', JNumber (Fin 3)),
                 (''lots'', JArray [JObject [(''qty'', JNumber (Fin 3)),
                    (''price'', JNumber (Fin 100)), (''ts'', JNumber (Fin 1))]])])
         else None),
      orderDocs = []\<rparr>"

definition sellC :: SpotOrderParams where
  "sellC = \<lparr>s_symbol = ''AAPL'', s_side = Sell, s_qty = Fin 5, s_fillPrice = Fin 100,
            s_type = ''MARKET'', s_lotTimestamp = 1, s_extra = []\<rparr>"

text \<open>
  A position of two lots, of the doubles written 0.2 and 0.6, and a sell of the double
  written 0.800000001.
\<close>

definition ledgerTwoLots :: ledger where
  "ledgerTwoLots =
     \<lparr>userDoc = Some (JObject [(''cash'', JNumber (Fin 1000))]),
      positionDocs = (\<lambda>s. if s = ''AAPL''
         then Some (JObject [(''symbol'', JString ''AAPL''),
                 (''lots'', JArray
                    [JObject [(''qty'', JNumber (Fin (3602879701896397 / 18014398509481984))),
                       (''price'', JNumber (Fin 100)), (''ts'', JNumber (Fin 1))],
                     JObject [(''qty'', JNumber (Fin (5404319552844595 / 9007199254740992))),
                       (''price'', JNumber (Fin 100)), (''ts'', JNumber (Fin 2))]])])
         else None),
      orderDocs = []\<rparr>"

definition sellNearly :: SpotOrderParams where
  "sellNearly = \<lparr>s_symbol = ''AAPL'', s_side = Sell,
                 s_qty = Fin (7205759412799993 / 9007199254740992), s_fillPrice = Fin 100,
                 s_type = ''MARKET'', s_lotTimestamp = 3, s_extra = []\<rparr>"

definition ledgerPoor :: ledger where
  "ledgerPoor = \<lparr>userDoc = Some (JObject [(''cash'', JNumber (Fin 50))]),
                 positionDocs = (\<lambda>s. None), orderDocs = []\<rparr>"

definition buyDear :: SpotOrderParams where
  "buyDear = \<lparr>s_symbol = ''AAPL'', s_side = Buy, s_qty = Fin 1, s_fillPrice = Fin 100,
              s_type = ''MARKET'', s_lotTimestamp = 1, s_extra = []\<rparr>"

text \<open>A balance of 10 and a buy of one share at the double written 1.6745575.\<close>

definition ledgerTen :: ledger where
  "ledgerTen = \<lparr>userDoc = Some (JObject [(''cash'', JNumber (Fin 10))]),
                positionDocs = (\<lambda>s. None), orderDocs = []\<rparr>"

definition buyFraction :: SpotOrderParams where
  "buyFraction = \<lparr>s_symbol = ''AAPL'', s_side = Buy, s_qty = Fin 1,
                  s_fillPrice = Fin (7541536533010469 / 4503599627370496),
                  s_type = ''MARKET'', s_lotTimestamp = 1, s_extra = []\<rparr>"

text \<open>The double written 1e200, and a buy of that many shares at that price.\<close>

definition tenTo200 :: real where
  "tenTo200 = 5883593420661338 * 2 ^ 612"

definition buyHuge :: SpotOrderParams where
  "buyHuge = \<lparr>s_symbol = ''AAPL'', s_side = Buy, s_qty = Fin tenTo200,
              s_fillPrice = Fin tenTo200,
              s_type = ''MARKET'', s_lotTimestamp = 1, s_extra = []\<rparr>"


section \<open>Properties\<close>

subsection \<open>Rounding to the nearest double\<close>

declare expUp.simps [simp del] expDown.simps [simp del]

lemma rne_error: "\<bar>real_of_int (rne x) - x\<bar> \<le> 1 / 2"
  unfolding rne_def Let_def by (simp split: if_splits)

lemma two_powi_Suc: "(2::real) powi (n + 1) = 2 * 2 powi n"
  by (simp add: power_int_add_1')

lemma expUp_bounds: "1 \<le> x \<Longrightarrow> 2 powi (expUp x) \<le> x \<and> x < 2 powi (expUp x + 1)"
proof (induction x rule: expUp.induct)
  case (1 x)
  show ?case
  proof (cases "2 \<le> x")
    case True
    then have h: "1 \<le> x / 2" by simp
    from "1.IH" [OF True h] have ih: "2 powi (expUp (x / 2)) \<le> x / 2"
      "x / 2 < 2 powi (expUp (x / 2) + 1)" by simp_all
    have e: "expUp x = expUp (x / 2) + 1" using True by (subst expUp.simps) simp
    have p1: "(2::real) powi (expUp (x / 2) + 1) = 2 * 2 powi (expUp (x / 2))"
      by (rule two_powi_Suc)
    have p2: "(2::real) powi (expUp (x / 2) + 1 + 1) = 2 * 2 powi (expUp (x / 2) + 1)"
      by (rule two_powi_Suc)
    show ?thesis unfolding e using ih p1 p2 by linarith
  next
    case False
    then have "expUp x = 0" by (subst expUp.simps) simp
    then show ?thesis using False "1.prems" by simp
  qed
qed

lemma expDown_bounds:
  "0 < x \<Longrightarrow> x < 1 \<Longrightarrow> 2 powi (expDown x) \<le> x \<and> x < 2 powi (expDown x + 1)"
proof (induction x rule: expDown.induct)
  case (1 x)
  have e: "expDown x = expDown (2 * x) - 1" using "1.prems" by (subst expDown.simps) simp
  show ?case
  proof (cases "2 * x < 1")
    case True
    from "1.IH" [OF _ _ True] "1.prems" have ih: "2 powi (expDown (2 * x)) \<le> 2 * x"
      "2 * x < 2 powi (expDown (2 * x) + 1)" by simp_all
    have p1: "(2::real) powi (expDown (2 * x)) = 2 * 2 powi (expDown (2 * x) - 1)"
      using two_powi_Suc [of "expDown (2 * x) - 1"] by simp
    have p2: "(2::real) powi (expDown (2 * x) - 1 + 1) = 2 powi (expDown (2 * x))"
      by simp
    have p3: "(2::real) powi (expDown (2 * x) + 1) = 2 * 2 powi (expDown (2 * x))"
      by (rule two_powi_Suc)
    show ?thesis unfolding e p2 using ih p1 p3 by linarith
  next
    case False
    then have "expDown (2 * x) = 0" by (subst expDown.simps) simp
    then show ?thesis unfolding e using False "1.prems" by (simp add: power_int_minus)
  qed
qed

lemma exponent_bounds:
  assumes "x \<noteq> 0"
  shows "2 powi (exponent x) \<le> \<bar>x\<bar>" and "\<bar>x\<bar> < 2 powi (exponent x + 1)"
proof -
  have "2 powi (exponent x) \<le> \<bar>x\<bar> \<and> \<bar>x\<bar> < 2 powi (exponent x + 1)"
  proof (cases "1 \<le> \<bar>x\<bar>")
    case True
    then show ?thesis using expUp_bounds [of "\<bar>x\<bar>"] by (simp add: exponent_def)
  next
    case False
    then show ?thesis using expDown_bounds [of "\<bar>x\<bar>"] assms by (simp add: exponent_def)
  qed
  then show "2 powi (exponent x) \<le> \<bar>x\<bar>" and "\<bar>x\<bar> < 2 powi (exponent x + 1)" by simp_all
qed

lemma exponent_unique:
  assumes "2 powi e \<le> \<bar>x\<bar>" and "\<bar>x\<bar> < 2 powi (e + 1)"
  shows "exponent x = e"
proof -
  have "0 < (2::real) powi e" by simp
  with assms(1) have "0 < \<bar>x\<bar>" by linarith
  then have nz: "x \<noteq> 0" by simp
  note b = exponent_bounds [OF nz]
  have "\<not> exponent x < e"
  proof
    assume "exponent x < e"
    then have "exponent x + 1 \<le> e" by simp
    then have "(2::real) powi (exponent x + 1) \<le> 2 powi e" by (intro power_int_increasing) simp_all
    with b(2) assms(1) show False by linarith
  qed
  moreover have "\<not> e < exponent x"
  proof
    assume "e < exponent x"
    then have "e + 1 \<le> exponent x" by simp
    then have "(2::real) powi (e + 1) \<le> 2 powi (exponent x)" by (intro power_int_increasing) simp_all
    with b(1) assms(2) show False by linarith
  qed
  ultimately show ?thesis by simp
qed

lemma ulp_pos: "0 < ulp x"
  by (simp add: ulp_def)

lemma fl_error_ulp: "\<bar>fl x - x\<bar> \<le> ulp x / 2"
proof -
  have "fl x - x = (real_of_int (rne (x / ulp x)) - x / ulp x) * ulp x"
    using ulp_pos [of x] by (simp add: fl_def algebra_simps)
  then have "\<bar>fl x - x\<bar> = \<bar>real_of_int (rne (x / ulp x)) - x / ulp x\<bar> * ulp x"
    using ulp_pos [of x] by (simp add: abs_mult)
  also have "\<dots> \<le> (1 / 2) * ulp x"
    using rne_error [of "x / ulp x"] ulp_pos [of x] by (intro mult_right_mono) simp_all
  finally show ?thesis by simp
qed

lemma fl_zero: "fl 0 = 0"
  by (simp add: fl_def rne_def)

text \<open>Below \<open>2^n\<close> the spacing of doubles is at most \<open>2^(n-53)\<close>.\<close>

lemma ulp_le:
  assumes "\<bar>x\<bar> < 2 powi n" and "1 \<le> n"
  shows "ulp x \<le> 2 powi (n - 53)"
proof -
  have "exponent x \<le> n - 1"
  proof (cases "x = 0")
    case True
    then show ?thesis using assms(2) by (simp add: exponent_def expDown.simps)
  next
    case False
    have "\<not> n \<le> exponent x"
    proof
      assume "n \<le> exponent x"
      then have "(2::real) powi n \<le> 2 powi (exponent x)" by (intro power_int_increasing) simp_all
      with exponent_bounds(1) [OF False] assms(1) show False by linarith
    qed
    then show ?thesis by simp
  qed
  then have "max (exponent x) (- 1022) - 52 \<le> n - 53" using assms(2) by simp
  then have "(2::real) powi (max (exponent x) (- 1022) - 52) \<le> 2 powi (n - 53)"
    by (intro power_int_increasing) simp_all
  then show ?thesis by (simp add: ulp_def)
qed

lemma fl_error_below:
  assumes "\<bar>x\<bar> < 2 powi n" and "1 \<le> n"
  shows "\<bar>fl x - x\<bar> \<le> 2 powi (n - 53) / 2"
  using fl_error_ulp [of x] ulp_le [OF assms] by linarith

lemma toDouble_Fin: "\<bar>fl a\<bar> < 10000000000000000 \<Longrightarrow> toDouble a = Fin (fl a)"
proof -
  assume h: "\<bar>fl a\<bar> < 10000000000000000"
  have "(10000000000000000::real) < 2 ^ 1024" by simp
  with h have "\<not> 2 ^ 1024 \<le> fl a" "\<not> fl a \<le> - (2 ^ 1024)" by linarith+
  then show ?thesis by (simp add: toDouble_def Let_def)
qed

text \<open>A six-decimal value below \<open>2^32\<close> is a fixed point.\<close>

lemma round6_f64_fixed_point:
  fixes k :: int
  assumes "\<bar>real_of_int k\<bar> \<le> 4294967295000001"
  shows "toDouble (real_of_int k / 1000000) = Fin (fl (real_of_int k / 1000000))
     \<and> round6 (Fin (fl (real_of_int k / 1000000))) = Fin (fl (real_of_int k / 1000000))"
proof -
  define K where "K = \<bar>real_of_int k\<bar>"
  define b where "b = real_of_int k / 1000000"
  define y where "y = fl b"
  define c where "c = y * 1000000"
  define w where "w = fl c"
  have K2: "K \<le> 4294967295000001" using assms by (simp add: K_def)
  have bK: "\<bar>b\<bar> = K / 1000000" by (simp add: b_def K_def)
  have "\<bar>b\<bar> < 2 powi 32" using K2 unfolding bK by simp
  from fl_error_below [OF this] have yb: "\<bar>y - b\<bar> \<le> 1 / 4194304"
    by (simp add: y_def power_int_minus)
  have e: "c - real_of_int k = (y - b) * 1000000" by (simp add: c_def b_def)
  have "\<bar>(y - b) * 1000000\<bar> = \<bar>y - b\<bar> * \<bar>1000000\<bar>" by (rule abs_mult)
  then have "\<bar>c - real_of_int k\<bar> = \<bar>y - b\<bar> * 1000000" unfolding e by (simp only: abs_numeral)
  with yb have ck: "\<bar>c - real_of_int k\<bar> \<le> 6 / 25" by simp
  have cK: "\<bar>c\<bar> \<le> K + 6 / 25" using ck unfolding K_def by linarith
  then have "\<bar>c\<bar> < 2 powi 52" using K2 by simp
  from fl_error_below [OF this] have wc: "\<bar>w - c\<bar> \<le> 1 / 4"
    by (simp add: w_def power_int_minus)
  have wk: "\<bar>w - real_of_int k\<bar> < 1 / 2" using wc ck by linarith
  have "real_of_int k \<le> w + 1 / 2" "w + 1 / 2 < real_of_int k + 1" using wk by linarith+
  then have fk: "\<lfloor>w + 1 / 2\<rfloor> = k" by (intro floor_unique)
  have "\<bar>y\<bar> \<le> \<bar>b\<bar> + 1 / 4194304" using yb by linarith
  then have "\<bar>y\<bar> < 10000000000000000" using K2 unfolding bK by simp
  then have "\<bar>fl b\<bar> < 10000000000000000" by (simp only: y_def)
  then have tb: "toDouble b = Fin y" unfolding y_def by (rule toDouble_Fin)
  have "\<bar>w\<bar> \<le> \<bar>c\<bar> + 1 / 4" using wc by linarith
  then have "\<bar>w\<bar> < 10000000000000000" using K2 cK by simp
  then have "\<bar>fl c\<bar> < 10000000000000000" by (simp only: w_def)
  then have tc: "toDouble c = Fin w" unfolding w_def by (rule toDouble_Fin)
  have "round6 (Fin y) = Fin y"
    using tb tc fk by (simp add: round6_def c_def [symmetric] b_def [symmetric])
  with tb show ?thesis by (simp add: y_def b_def)
qed

lemma jsDiv_million: "jsDiv (Fin r) (Fin 1000000) = toDouble (r / 1000000)"
  by simp

text \<open>Evaluating one rounding, given the binary exponent of its argument.\<close>

lemma fl_eval:
  assumes "2 powi e \<le> \<bar>a\<bar>" and "\<bar>a\<bar> < 2 powi (e + 1)" and "- 1022 \<le> e"
  shows "fl a = of_int (rne (a / 2 powi (e - 52))) * 2 powi (e - 52)"
proof -
  have "exponent a = e" by (rule exponent_unique [OF assms(1,2)])
  then have "ulp a = 2 powi (e - 52)" using assms(3) by (simp add: ulp_def)
  then show ?thesis by (simp add: fl_def)
qed

lemma toDouble_eval:
  assumes "2 powi e \<le> \<bar>a\<bar>" and "\<bar>a\<bar> < 2 powi (e + 1)" and "- 1022 \<le> e" and "e \<le> 60"
    and "of_int (rne (a / 2 powi (e - 52))) * 2 powi (e - 52) = r" and "\<bar>r\<bar> < 10000000000000000"
  shows "toDouble a = Fin r"
  using toDouble_Fin [of a] fl_eval [OF assms(1,2,3)] assms(5,6) by simp

lemma rne_of_int: "rne (of_int n) = n"
  by (simp add: rne_def)

lemma rne_minus: "rne (- y) = - rne y"
proof (cases "y = of_int \<lfloor>y\<rfloor>")
  case True
  then obtain n :: int where "y = of_int n" by metis
  then have "rne y = n" "rne (- y) = - n"
    using rne_of_int [of n] rne_of_int [of "- n"] by simp_all
  then show ?thesis by simp
next
  case False
  define f where "f = \<lfloor>y\<rfloor>"
  have lo: "of_int f < y" using False unfolding f_def by linarith
  have hi: "y < of_int f + 1" unfolding f_def by linarith
  have fm: "\<lfloor>- y\<rfloor> = - f - 1" using lo hi by (intro floor_unique) simp_all
  have ev: "even (- f - 1) \<longleftrightarrow> odd f" by simp
  show ?thesis
    unfolding rne_def Let_def fm f_def [symmetric] ev using lo hi
    by (simp add: algebra_simps)
qed

lemma exponent_minus: "exponent (- x) = exponent x"
  by (simp add: exponent_def)

lemma ulp_minus: "ulp (- x) = ulp x"
  by (simp add: ulp_def exponent_minus)

lemma fl_minus: "fl (- x) = - fl x"
  by (simp add: fl_def ulp_minus rne_minus)

lemma toDouble_minus: "toDouble (- x) = jsNeg (toDouble x)"
  by (simp add: toDouble_def fl_minus Let_def)

text \<open>A number with a significand below \<open>2^53\<close> and an exponent a double can have is a double.\<close>

lemma fl_exact:
  assumes x: "x = of_int m * 2 powi e" and m: "\<bar>m\<bar> < 2 ^ 53" and e: "- 1074 \<le> e"
  shows "fl x = x"
proof (cases "m = 0")
  case True
  then show ?thesis using x by (simp add: fl_zero)
next
  case False
  then have nz: "x \<noteq> 0" using x by simp
  define E where "E = max (exponent x) (- 1022) - 52"
  have u: "ulp x = 2 powi E" by (simp add: ulp_def E_def)
  have Ee: "E \<le> e"
  proof (rule ccontr)
    assume "\<not> E \<le> e"
    then have lt: "e + 1 \<le> E" by simp
    with e have "E = exponent x - 52" unfolding E_def by linarith
    with lt have ex: "e + 53 \<le> exponent x" by simp
    have "\<bar>x\<bar> = \<bar>real_of_int m\<bar> * 2 powi e" unfolding x by (simp add: abs_mult)
    also have "\<dots> < 2 ^ 53 * 2 powi e"
    proof (rule mult_strict_right_mono)
      have "\<bar>real_of_int m\<bar> = real_of_int \<bar>m\<bar>" by simp
      also have "\<dots> < real_of_int (2 ^ 53)" using m by (simp only: of_int_less_iff)
      finally show "\<bar>real_of_int m\<bar> < 2 ^ 53" by simp
    qed simp
    also have "\<dots> = 2 powi (e + 53)" by (simp add: power_int_add)
    also have "\<dots> \<le> 2 powi (exponent x)" using ex by (intro power_int_increasing) simp_all
    finally show False using exponent_bounds(1) [OF nz] by linarith
  qed
  define k where "k = nat (e - E)"
  have k: "e = E + int k" using Ee by (simp add: k_def)
  have "x / 2 powi E = of_int m * 2 ^ k"
    unfolding x k by (simp add: power_int_add)
  then have q: "x / 2 powi E = of_int (m * 2 ^ k)" by simp
  have "fl x = of_int (rne (x / 2 powi E)) * 2 powi E" by (simp add: fl_def u)
  also have "\<dots> = of_int (m * 2 ^ k) * 2 powi E" by (simp only: q rne_of_int)
  also have "\<dots> = x" unfolding x k by (simp add: power_int_add)
  finally show ?thesis .
qed

lemma toDouble_exact:
  assumes "x = of_int m * 2 powi e" and "\<bar>m\<bar> < 2 ^ 53" and "- 1074 \<le> e" and "\<bar>x\<bar> < 2 ^ 1024"
  shows "toDouble x = Fin x"
proof -
  have "fl x = x" by (rule fl_exact [OF assms(1-3)])
  moreover have "\<not> 2 ^ 1024 \<le> x" "\<not> x \<le> - (2 ^ 1024)" using assms(4) by linarith+
  ultimately show ?thesis by (simp add: toDouble_def)
qed

lemma toDouble_int:
  assumes "\<bar>n\<bar> \<le> 2 ^ 53"
  shows "toDouble (of_int n) = Fin (of_int n)"
proof (cases "\<bar>n\<bar> = 2 ^ 53")
  case True
  then have "n = 2 ^ 53 \<or> n = - (2 ^ 53)" by linarith
  then show ?thesis
  proof
    assume n: "n = 2 ^ 53"
    show ?thesis unfolding n
      by (rule toDouble_exact [where m = "2 ^ 52" and e = 1]) simp_all
  next
    assume n: "n = - (2 ^ 53)"
    show ?thesis unfolding n
      by (rule toDouble_exact [where m = "- (2 ^ 52)" and e = 1]) simp_all
  qed
next
  case False
  with assms have lt: "\<bar>n\<bar> < 2 ^ 53" by simp
  have "\<bar>real_of_int n\<bar> = real_of_int \<bar>n\<bar>" by simp
  also have "\<dots> < real_of_int (2 ^ 53)" using lt by (simp only: of_int_less_iff)
  finally have "\<bar>real_of_int n\<bar> < 2 ^ 1024" by simp
  then show ?thesis
    using lt by (intro toDouble_exact [where m = n and e = 0]) simp_all
qed

lemma toDouble_zero [simp]: "toDouble 0 = Fin 0"
  using toDouble_int [of 0] by simp

lemma toDouble_one [simp]: "toDouble 1 = Fin 1"
  using toDouble_int [of 1] by simp

lemma toDouble_numeral [simp]:
  "(numeral k :: int) \<le> 9007199254740992 \<Longrightarrow> toDouble (numeral k) = Fin (numeral k)"
  using toDouble_int [of "numeral k"] by simp

lemma toDouble_neg_numeral [simp]:
  "(numeral k :: int) \<le> 9007199254740992 \<Longrightarrow> toDouble (- numeral k) = Fin (- numeral k)"
  using toDouble_int [of "- numeral k"] by simp

text \<open>Multiples of 1/64 of magnitude at most \<open>2^32\<close>, and \<open>round6\<close> on them.\<close>

lemma toDouble_sixtyfourth:
  assumes "of_int \<lfloor>64 * x\<rfloor> = 64 * x" and "\<bar>x\<bar> \<le> 4294967296"
  shows "toDouble x = Fin x"
proof -
  define n where "n = \<lfloor>64 * x\<rfloor>"
  have xn: "x = of_int n / 64" unfolding n_def assms(1) by simp
  have "\<bar>real_of_int n\<bar> \<le> 274877906944" using assms(2) unfolding xn by simp
  then have "real_of_int \<bar>n\<bar> < real_of_int (2 ^ 53)" by simp
  then have nb: "\<bar>n\<bar> < 2 ^ 53" by (simp only: of_int_less_iff)
  have "x = of_int n * 2 powi (- 6)" unfolding xn by (simp add: power_int_minus)
  moreover have "\<bar>x\<bar> < 2 ^ 1024" using assms(2) by simp
  ultimately show ?thesis using nb by (intro toDouble_exact [where m = n and e = "- 6"]) simp_all
qed

lemma round6_sixtyfourth:
  assumes "of_int \<lfloor>64 * x\<rfloor> = 64 * x" and "\<bar>x\<bar> \<le> 4294967296"
  shows "round6 (Fin x) = Fin x"
proof -
  define n where "n = \<lfloor>64 * x\<rfloor>"
  have xn: "x = of_int n / 64" unfolding n_def assms(1) by simp
  have nb: "\<bar>real_of_int n\<bar> \<le> 274877906944" using assms(2) unfolding xn by simp
  have p: "x * 1000000 = of_int (n * 15625)" unfolding xn by simp
  have "\<bar>real_of_int (n * 15625)\<bar> = \<bar>real_of_int n\<bar> * 15625" by (simp add: abs_mult)
  also have "\<dots> \<le> 274877906944 * 15625" using nb by simp
  finally have "real_of_int \<bar>n * 15625\<bar> \<le> real_of_int (2 ^ 53)" by simp
  then have "\<bar>n * 15625\<bar> \<le> 2 ^ 53" by (simp only: of_int_le_iff)
  then have t: "toDouble (x * 1000000) = Fin (of_int (n * 15625))"
    unfolding p by (rule toDouble_int)
  have d: "real_of_int (n * 15625) / 1000000 = x" unfolding xn by simp
  show ?thesis
    unfolding round6_def
    by (simp add: t d toDouble_sixtyfourth [OF assms] del: of_int_mult)
qed

text \<open>The relative error of one rounding in the normal range.\<close>

lemma fl_rel_error:
  assumes "2 powi (- 1022) \<le> \<bar>x\<bar>"
  shows "\<bar>fl x - x\<bar> \<le> \<bar>x\<bar> / 2 ^ 53"
proof -
  have "0 < (2::real) powi (- 1022)" by simp
  with assms have nz: "x \<noteq> 0" by auto
  have "\<not> exponent x < - 1022"
  proof
    assume "exponent x < - 1022"
    then have "exponent x + 1 \<le> - 1022" by simp
    then have "(2::real) powi (exponent x + 1) \<le> 2 powi (- 1022)"
      by (intro power_int_increasing) simp_all
    with exponent_bounds(2) [OF nz] assms show False by linarith
  qed
  then have "ulp x = 2 powi (exponent x - 52)" by (simp add: ulp_def)
  also have "\<dots> = 2 powi (exponent x) / 2 ^ 52" by (simp add: power_int_diff)
  also have "\<dots> \<le> \<bar>x\<bar> / 2 ^ 52" using exponent_bounds(1) [OF nz] by (simp add: divide_right_mono)
  finally have "ulp x / 2 \<le> \<bar>x\<bar> / 2 ^ 53" by simp
  with fl_error_ulp [of x] show ?thesis by linarith
qed

text \<open>The two epsilons as doubles.\<close>

lemma STATS_EPSILON_val: "STATS_EPSILON = 4722366482869645 / 4722366482869645213696"
  unfolding STATS_EPSILON_def
  by (subst fl_eval [where e = "- 20"]) (simp_all add: rne_def power_int_minus)

lemma FIFO_EPSILON_val: "FIFO_EPSILON = 4835703278458517 / 4835703278458516698824704"
  unfolding FIFO_EPSILON_def
  by (subst fl_eval [where e = "- 30"]) (simp_all add: rne_def power_int_minus)

subsection \<open>Evaluating arithmetic on finite numbers\<close>

lemma round6_numeral [simp]:
  "(numeral k :: real) \<le> 4294967296 \<Longrightarrow> round6 (Fin (numeral k)) = Fin (numeral k)"
  by (rule round6_sixtyfourth) simp_all

lemma round6_zero [simp]: "round6 (Fin 0) = Fin 0"
  by (rule round6_sixtyfourth) simp_all

lemma round6_one [simp]: "round6 (Fin 1) = Fin 1"
  by (rule round6_sixtyfourth) simp_all

lemma jsSub_Fin [simp]: "jsSub (Fin x) (Fin y) = toDouble (x - y)"
  by (simp add: jsSub_def)

lemma Math_min_Fin [simp]: "Math_min (Fin x) (Fin y) = Fin (min x y)"
  by (simp add: Math_min_def min_def)

lemma Math_max_Fin [simp]: "Math_max (Fin x) (Fin y) = Fin (max x y)"
  by (simp add: Math_max_def max_def)

lemma jsGt_Fin [simp]: "jsGt (Fin x) (Fin y) = (y < x)"
  by (simp add: jsGt_def)

lemmas eps_vals = STATS_EPSILON_val FIFO_EPSILON_val

lemma round6_PosInf [simp]: "round6 PosInf = PosInf"
  by (simp add: round6_def)

lemma round6_NegInf [simp]: "round6 NegInf = NegInf"
  by (simp add: round6_def)

lemma round6_NaN [simp]: "round6 NaN = NaN"
  by (simp add: round6_def)

text \<open>Overflow: a result of magnitude \<open>2^1024\<close> or more is infinite.\<close>

lemma toDouble_overflow:
  assumes "2 ^ 1024 \<le> x"
  shows "toDouble x = PosInf"
proof -
  have xp: "0 < x" using assms by (smt (verit) zero_less_power)
  then have nz: "x \<noteq> 0" by simp
  note b = exponent_bounds [OF nz]
  have "\<not> exponent x + 1 \<le> 1024"
  proof
    assume "exponent x + 1 \<le> 1024"
    then have "(2::real) powi (exponent x + 1) \<le> 2 powi 1024"
      by (intro power_int_increasing) simp_all
    with b(2) assms xp show False by simp
  qed
  then have ex: "1024 \<le> exponent x" by simp
  then have u: "ulp x = 2 powi (exponent x - 52)" by (simp add: ulp_def)
  have "2 powi (exponent x) / 2 powi (exponent x - 52) \<le> x / 2 powi (exponent x - 52)"
    using b(1) xp by (intro divide_right_mono) simp_all
  moreover have "(2::real) powi (exponent x) / 2 powi (exponent x - 52) = 2 ^ 52"
    by (simp add: power_int_diff)
  ultimately have y: "2 ^ 52 \<le> x / ulp x" unfolding u by simp
  have "x / ulp x - 1 / 2 \<le> real_of_int (rne (x / ulp x))"
    using rne_error [of "x / ulp x"] by linarith
  with y have "real_of_int (2 ^ 52) - 1 / 2 \<le> real_of_int (rne (x / ulp x))" by simp
  then have "real_of_int (2 ^ 52 - 1) < real_of_int (rne (x / ulp x))" by simp
  then have "2 ^ 52 - 1 < rne (x / ulp x)" by (simp only: of_int_less_iff)
  then have "2 ^ 52 \<le> rne (x / ulp x)" by simp
  then have "real_of_int (2 ^ 52) \<le> real_of_int (rne (x / ulp x))" by (simp only: of_int_le_iff)
  then have "2 ^ 52 * ulp x \<le> real_of_int (rne (x / ulp x)) * ulp x"
    using ulp_pos [of x] by (intro mult_right_mono) simp_all
  moreover have "2 ^ 52 * ulp x = 2 powi (exponent x)"
    unfolding u by (simp add: power_int_diff)
  moreover have "(2::real) powi 1024 \<le> 2 powi (exponent x)"
    using ex by (intro power_int_increasing) simp_all
  ultimately have "2 ^ 1024 \<le> fl x" by (simp add: fl_def)
  then show ?thesis by (simp add: toDouble_def)
qed

subsection \<open>Overselling is rejected and changes nothing\<close>

lemma FIFO_EPSILON_pos: "0 < FIFO_EPSILON"
  by (simp add: FIFO_EPSILON_val)

lemma FIFO_EPSILON_normal: "2 powi (- 1022) \<le> FIFO_EPSILON"
proof -
  have "(2::real) powi (- 1022) \<le> 2 powi (- 82)" by (intro power_int_increasing) simp_all
  also have "\<dots> \<le> FIFO_EPSILON" by (simp add: FIFO_EPSILON_val power_int_minus)
  finally show ?thesis .
qed

lemma lotOfEntry_qty: "lotOfEntry e = Some l \<Longrightarrow> \<exists>c. qty l = Fin c \<and> FIFO_EPSILON < c"
  by (auto simp: lotOfEntry_def Let_def split: if_splits option.splits)

lemma normalizeFifoLots_qty:
  "l \<in> set (normalizeFifoLots raw) \<Longrightarrow> \<exists>c. qty l = Fin c \<and> FIFO_EPSILON < c"
  by (auto simp: normalizeFifoLots_def List.map_filter_def lotOfEntry_qty split: jsvalue.splits)

text \<open>Once the remaining quantity has overflowed, it stays infinite.\<close>

lemma sellLoop_PosInf:
  "\<forall>l \<in> set lots. \<exists>c. qty l = Fin c \<Longrightarrow> \<exists>u'. sellLoop PosInf u lots = (PosInf, u')"
proof (induction lots arbitrary: u)
  case Nil
  then show ?case by simp
next
  case (Cons lot rest)
  then obtain c where c: "qty lot = Fin c" by auto
  from Cons.prems have r: "\<forall>l \<in> set rest. \<exists>c. qty l = Fin c" by simp
  show ?case using Cons.IH [OF r] c
    by (simp add: Math_min_def jsSub_def Let_def)
qed

text \<open>
  The sell loop cannot consume more than the lots hold: each subtraction loses at most one
  rounding, \<open>d\<close>, of the remaining quantity.
\<close>

lemma sellLoop_oversell:
  assumes "\<forall>l \<in> set lots. \<exists>c. qty l = Fin c \<and> 0 \<le> c"
    and "sum_list (map qtyOf lots) + FIFO_EPSILON + real (length lots) * d < r"
    and "r + real (length lots) * d \<le> 2 * q"
    and "d = q / 2 ^ 52" and "0 \<le> q"
  shows "\<exists>R u'. sellLoop (Fin r) u lots = (R, u') \<and> jsGt R (Fin FIFO_EPSILON)"
  using assms(1-3)
proof (induction lots arbitrary: r u)
  case Nil
  then show ?case by simp
next
  case (Cons lot rest)
  from Cons.prems(1) obtain c where c: "qty lot = Fin c" "0 \<le> c" by auto
  from Cons.prems(1) have rest: "\<forall>l \<in> set rest. \<exists>c. qty l = Fin c \<and> 0 \<le> c" by simp
  then have fin: "\<forall>l \<in> set rest. \<exists>c. qty l = Fin c" by blast
  have sr: "0 \<le> sum_list (map qtyOf rest)"
  proof (intro sum_list_nonneg)
    fix x assume "x \<in> set (map qtyOf rest)"
    then show "0 \<le> x" using rest by (auto simp: qtyOf_def)
  qed
  have qc: "qtyOf lot = c" using c by (simp add: qtyOf_def)
  have dn: "0 \<le> d" using assms(4,5) by simp
  define n where "n = real (length rest)"
  have n0: "0 \<le> n * d" using dn by (simp add: n_def)
  have p2: "c + sum_list (map qtyOf rest) + FIFO_EPSILON + (n * d + d) < r"
    using Cons.prems(2) by (simp add: qc n_def algebra_simps)
  have p3: "r + (n * d + d) \<le> 2 * q"
    using Cons.prems(3) by (simp add: n_def algebra_simps)
  define z where "z = r - c"
  have zlo: "sum_list (map qtyOf rest) + FIFO_EPSILON + (n * d + d) < z"
    using p2 by (simp add: z_def)
  have ze: "FIFO_EPSILON < z" using zlo sr n0 dn by linarith
  have zp: "0 < z" using ze FIFO_EPSILON_pos by linarith
  have zhi: "z \<le> 2 * q" using p3 n0 dn c(2) by (simp add: z_def)
  have "\<bar>fl z - z\<bar> \<le> \<bar>z\<bar> / 2 ^ 53"
    using FIFO_EPSILON_normal ze zp by (intro fl_rel_error) linarith
  moreover have "\<bar>z\<bar> / 2 ^ 53 \<le> d"
    using zhi zp unfolding assms(4) by simp
  ultimately have err: "\<bar>fl z - z\<bar> \<le> d" by linarith
  have re: "\<not> r \<le> FIFO_EPSILON" using ze c(2) by (simp add: z_def)
  have cr: "min c r = c" using zp by (simp add: z_def)
  have step: "sellLoop (Fin r) u (lot # rest) = sellLoop (toDouble z) u rest"
    using re cr FIFO_EPSILON_pos
    by (simp add: c(1) Let_def z_def)
  show ?case
  proof (cases "2 ^ 1024 \<le> fl z")
    case True
    then have "toDouble z = PosInf" by (simp add: toDouble_def)
    with sellLoop_PosInf [OF fin, of u] step show ?thesis by (auto simp: jsGt_def)
  next
    case False
    have "0 < fl z" using zlo err sr n0 FIFO_EPSILON_pos by linarith
    moreover have "(0::real) < 2 ^ 1024" by simp
    ultimately have "\<not> fl z \<le> - (2 ^ 1024)" by linarith
    with False have t: "toDouble z = Fin (fl z)" by (simp add: toDouble_def)
    have "sum_list (map qtyOf rest) + FIFO_EPSILON + n * d < fl z"
      using zlo err by linarith
    then have a: "sum_list (map qtyOf rest) + FIFO_EPSILON + real (length rest) * d < fl z"
      unfolding n_def .
    have "fl z + n * d \<le> 2 * q"
      using p3 err c(2) z_def by linarith
    then have b: "fl z + real (length rest) * d \<le> 2 * q"
      unfolding n_def .
    show ?thesis unfolding step t by (rule Cons.IH [OF rest a b])
  qed
qed

text \<open>
  C1, as amended. For every store and every sell of a positive quantity \<open>q\<close> that exceeds
  the total quantity of the lots held for its symbol by more than the epsilon 1e-9 plus a
  rounding allowance of \<open>q / 2^52\<close> for each lot held, \<open>computeFifoPositionPayload\<close>
  fails with the insufficient-lots error, and \<open>submitSpotOrder\<close> returns an error and
  the store it was given: user document (cash), position documents (lots) and order log are
  unchanged.
\<close>

theorem oversell_rejected_state_unchanged:
  assumes "s_side params = Sell" and "s_qty params = Fin q" and "0 < q"
    and "sum_list (map qtyOf (heldLots (positionDocs st) (s_symbol params))) + FIFO_EPSILON
           + real (length (heldLots (positionDocs st) (s_symbol params))) * q / 2 ^ 52 < q"
  shows "(\<exists>e. submitSpotOrder serverTime st params = (Inl e, st))
    \<and> computeFifoPositionPayload (positionDocs st (s_symbol params)) (s_symbol params) Sell
         (Fin q) p t = Inl InsufficientFifoLots"
proof -
  let ?lots = "heldLots (positionDocs st) (s_symbol params)"
  have pos: "\<forall>l \<in> set ?lots. \<exists>c. qty l = Fin c \<and> 0 \<le> c"
  proof
    fix l assume "l \<in> set ?lots"
    then obtain c where "qty l = Fin c" "FIFO_EPSILON < c"
      using normalizeFifoLots_qty unfolding heldLots_def by blast
    then show "\<exists>c. qty l = Fin c \<and> 0 \<le> c" using FIFO_EPSILON_pos by (intro exI [of _ c]) simp
  qed
  have s0: "0 \<le> sum_list (map qtyOf ?lots)"
  proof (intro sum_list_nonneg)
    fix x assume "x \<in> set (map qtyOf ?lots)"
    then show "0 \<le> x" using pos by (auto simp: qtyOf_def)
  qed
  define d where "d = q / 2 ^ 52"
  have h: "sum_list (map qtyOf ?lots) + FIFO_EPSILON + real (length ?lots) * d < q"
    using assms(4) by (simp add: d_def)
  have h2: "q + real (length ?lots) * d \<le> 2 * q"
    using h s0 FIFO_EPSILON_pos by linarith
  from sellLoop_oversell [OF pos h h2 d_def, of "[]"] assms(3)
  obtain R u' where l: "sellLoop (Fin q) [] ?lots = (R, u')" "jsGt R (Fin FIFO_EPSILON)"
    by auto
  have fail: "computeFifoPositionPayload (positionDocs st (s_symbol params)) (s_symbol params)
        Sell (Fin q) p' t' = Inl InsufficientFifoLots" for p' t'
    using l by (simp add: computeFifoPositionPayload_def heldLots_def)
  have "\<exists>e. submitSpotOrder serverTime st params = (Inl e, st)"
    using assms(1,2,3) fail
    by (auto simp: submitSpotOrder_def runTransaction_def txBody_def Let_def split: jsnum.splits)
  with fail show ?thesis by blast
qed

theorem oversell_rejected_state_unchanged_witness:
  "(\<exists>e. submitSpotOrder 7 ledgerC sellC = (Inl e, ledgerC))
   \<and> computeFifoPositionPayload (positionDocs ledgerC ''AAPL'') ''AAPL'' Sell (Fin 5) (Fin 100) 1
        = Inl InsufficientFifoLots
   \<and> (\<exists>e. submitSpotOrder 7 ledgerHeld3 sellC = (Inl e, ledgerHeld3))"
proof -
  have h0: "sum_list (map qtyOf (heldLots (positionDocs ledgerC) (s_symbol sellC))) + FIFO_EPSILON
      + real (length (heldLots (positionDocs ledgerC) (s_symbol sellC))) * 5 / 2 ^ 52 < 5"
    by (simp add: sellC_def ledgerC_def heldLots_def snapshotLots_def normalizeFifoLots_def
        FIFO_EPSILON_val)
  have h3: "sum_list (map qtyOf (heldLots (positionDocs ledgerHeld3) (s_symbol sellC))) + FIFO_EPSILON
      + real (length (heldLots (positionDocs ledgerHeld3) (s_symbol sellC))) * 5 / 2 ^ 52 < 5"
    by (simp add: sellC_def ledgerHeld3_def heldLots_def snapshotLots_def normalizeFifoLots_def
        List.map_filter_def lotOfEntry_def qtyOf_def FIFO_EPSILON_val Let_def)
  have s: "s_side sellC = Sell" and q: "s_qty sellC = Fin 5" by (simp_all add: sellC_def)
  have p: "(0::real) < 5" by simp
  from oversell_rejected_state_unchanged [OF s q p h0, of 7 "Fin 100" 1]
    oversell_rejected_state_unchanged [OF s q p h3, of 7 "Fin 100" 1]
  show ?thesis by (simp add: sellC_def)
qed

text \<open>
  C1 as stated fails within a rounding of the epsilon. With lots of the doubles written 0.2
  and 0.6 held, the sell of the double written 0.800000001 exceeds their total by more than
  1e-9 (by 1.0000000272e-9), yet the two subtractions of the loop leave 9.99999972e-10,
  which is not above the epsilon: the sell is committed, the order is logged and no lot is
  left.
\<close>

lemma nearly_first:
  "toDouble (10808639123703589 / 18014398509481984) = Fin (2702159780925897 / 4503599627370496)"
  by (rule toDouble_eval [where e = "- 1"]) (simp_all add: rne_def power_int_minus)

lemma nearly_second:
  "toDouble (9007199 / 9007199254740992) = Fin (9007199 / 9007199254740992)"
  by (rule toDouble_exact [where m = 9007199 and e = "- 53"]) (simp_all add: power_int_minus)

theorem oversell_rejection_counterexample:
  "FIFO_EPSILON = 4835703278458517 / 4835703278458516698824704
   \<and> heldLots (positionDocs ledgerTwoLots) ''AAPL'' =
       [\<lparr>qty = Fin (3602879701896397 / 18014398509481984), price = Fin 100, ts = 1\<rparr>,
        \<lparr>qty = Fin (5404319552844595 / 9007199254740992), price = Fin 100, ts = 2\<rparr>]
   \<and> 3602879701896397 / 18014398509481984 + 5404319552844595 / 9007199254740992 + FIFO_EPSILON
       < (7205759412799993 / 9007199254740992 :: real)
   \<and> fst (submitSpotOrder 7 ledgerTwoLots sellNearly) = Inr ()
   \<and> orderDocs (snd (submitSpotOrder 7 ledgerTwoLots sellNearly)) =
       [orderRecord ''AAPL'' Sell (7205759412799993 / 9007199254740992) ''MARKET'' 100 7 []]
   \<and> heldLots (positionDocs (snd (submitSpotOrder 7 ledgerTwoLots sellNearly))) ''AAPL'' = []"
proof -
  have l: "heldLots (positionDocs ledgerTwoLots) ''AAPL'' =
       [\<lparr>qty = Fin (3602879701896397 / 18014398509481984), price = Fin 100, ts = 1\<rparr>,
        \<lparr>qty = Fin (5404319552844595 / 9007199254740992), price = Fin 100, ts = 2\<rparr>]"
    by (simp add: ledgerTwoLots_def heldLots_def snapshotLots_def normalizeFifoLots_def
        List.map_filter_def lotOfEntry_def FIFO_EPSILON_val Let_def)
  have loop: "sellLoop (Fin (7205759412799993 / 9007199254740992)) []
       [\<lparr>qty = Fin (3602879701896397 / 18014398509481984), price = Fin 100, ts = 1\<rparr>,
        \<lparr>qty = Fin (5404319552844595 / 9007199254740992), price = Fin 100, ts = 2\<rparr>]
      = (Fin (9007199 / 9007199254740992), [])"
    by (simp add: FIFO_EPSILON_val Let_def nearly_first nearly_second)
  have c: "computeFifoPositionPayload (positionDocs ledgerTwoLots ''AAPL'') ''AAPL'' Sell
       (Fin (7205759412799993 / 9007199254740992)) (Fin 100) 3
      = Inr (mkPayload ''AAPL'' 3 [])"
    using l loop
    by (simp add: computeFifoPositionPayload_def heldLots_def finishLots_def FIFO_EPSILON_val)
  have s: "submitSpotOrder 7 ledgerTwoLots sellNearly =
      (Inr (), fold applyWrite
        [SetUser [(''cash'', JNumber (computeCashAfterDelta (userDoc ledgerTwoLots)
            (jsMul (jsMul (Fin 1) (Fin (7205759412799993 / 9007199254740992))) (Fin 100))
            DEFAULT_INITIAL_CASH))],
         SetPosition ''AAPL'' (payloadFields (mkPayload ''AAPL'' 3 [])),
         AddOrder (orderRecord ''AAPL'' Sell (7205759412799993 / 9007199254740992) ''MARKET''
           100 7 [])] ledgerTwoLots)"
    using c
    by (simp add: submitSpotOrder_def sellNearly_def runTransaction_def txBody_def Let_def
        del: jsMul.simps)
  have o: "orderDocs ledgerTwoLots = []" by (simp add: ledgerTwoLots_def)
  have h: "heldLots (positionDocs (snd (submitSpotOrder 7 ledgerTwoLots sellNearly))) ''AAPL'' = []"
    unfolding s
    by (simp add: heldLots_def snapshotLots_def payloadFields_def mkPayload_def setMerge_def
        normalizeFifoLots_def List.map_filter_def Let_def ledgerTwoLots_def)
  show ?thesis using l h unfolding s by (simp add: FIFO_EPSILON_val o)
qed

subsection \<open>Scenario A\<close>

text \<open>
  C3. For the fills buy 10 at 100 (t=1), buy 5 at 110 (t=2), sell 12 at 120 (t=3) on one
  symbol, the write side replayed from an empty store holds exactly the lot of quantity 3
  at price 110 (acquired at t=2), the read side reports the same lot, and the closed-trade
  extractor emits exactly two entries, in this order: quantity 10 bought at 100 and sold at
  120 with P&L 200, then quantity 2 bought at 110 and sold at 120 with P&L 20.
\<close>

theorem scenario_A_lots_and_closed_trades:
  "(\<exists>docs. replayWrite (\<lambda>s. None) scenarioA = Inr docs
       \<and> heldLots docs ''AAPL'' = [\<lparr>qty = Fin 3, price = Fin 110, ts = 2\<rparr>])
   \<and> readLots (aggregateOpenPositions scenarioA) ''AAPL'' = [\<lparr>qty = Fin 3, price = Fin 110, ts = 2\<rparr>]
   \<and> buildClosedTradeEntries scenarioA =
       [\<lparr>c_symbol = ''AAPL'', c_qty = Fin 10, buyPrice = Fin 100, sellPrice = Fin 120,
          buyTs = 1, sellTs = 3, pnl = Fin 200\<rparr>,
        \<lparr>c_symbol = ''AAPL'', c_qty = Fin 2, buyPrice = Fin 110, sellPrice = Fin 120,
          buyTs = 2, sellTs = 3, pnl = Fin 20\<rparr>]"
proof -
  have w: "\<exists>docs. replayWrite (\<lambda>s. None) scenarioA = Inr docs
       \<and> heldLots docs ''AAPL'' = [\<lparr>qty = Fin 3, price = Fin 110, ts = 2\<rparr>]"
    by (simp add: scenarioA_def writeStep_def computeFifoPositionPayload_def snapshotLots_def
        normalizeFifoLots_def finishLots_def mkPayload_def payloadFields_def setMerge_def
        lotToJs_def heldLots_def List.map_filter_def lotOfEntry_def eps_vals Let_def)
  have r: "readLots (aggregateOpenPositions scenarioA) ''AAPL'' = [\<lparr>qty = Fin 3, price = Fin 110, ts = 2\<rparr>]"
    by (simp add: scenarioA_def aggregateOpenPositions_def aggStep_def aggFinish_def
        readLots_def eps_vals Let_def)
  have c: "buildClosedTradeEntries scenarioA =
       [\<lparr>c_symbol = ''AAPL'', c_qty = Fin 10, buyPrice = Fin 100, sellPrice = Fin 120,
          buyTs = 1, sellTs = 3, pnl = Fin 200\<rparr>,
        \<lparr>c_symbol = ''AAPL'', c_qty = Fin 2, buyPrice = Fin 110, sellPrice = Fin 120,
          buyTs = 2, sellTs = 3, pnl = Fin 20\<rparr>]"
    by (simp add: scenarioA_def buildClosedTradeEntries_def closeStep_def eps_vals Let_def)
  from w r c show ?thesis by blast
qed

subsection \<open>Return on investment and win rate\<close>

text \<open>
  C7. \<open>computeBotStats\<close> returns roi = (totalValue - initialCredits) / initialCredits when
  initialCredits exceeds the epsilon 1e-6 and roi = 0 otherwise, for every pair of numbers
  (a \<open>NaN\<close> does not exceed it); its win rate is 0 whenever there is no closed trade; and
  for initialCredits = 1,000,000, no fills and totalValue = 1,000,000 it returns pnl = 0,
  roi = 0, tradesCount = 0 and winRate = 0.
\<close>

theorem roi_guard_and_scenario_B:
  "roi (computeBotStats initialCredits totalValue orders) =
     (if jsGt initialCredits (Fin STATS_EPSILON)
      then jsDiv (jsSub totalValue initialCredits) initialCredits else Fin 0)
   \<and> (closedTrades (computeBotStats initialCredits totalValue orders) = 0
        \<longrightarrow> winRate (computeBotStats initialCredits totalValue orders) = Fin 0)
   \<and> s_pnl (computeBotStats (Fin 1000000) (Fin 1000000) []) = Fin 0
   \<and> roi (computeBotStats (Fin 1000000) (Fin 1000000) []) = Fin 0
   \<and> tradesCount (computeBotStats (Fin 1000000) (Fin 1000000) []) = 0
   \<and> winRate (computeBotStats (Fin 1000000) (Fin 1000000) []) = Fin 0"
  by (simp add: computeBotStats_def Let_def statsInit_def)

theorem roi_guard_and_scenario_B_witness:
  "closedTrades (computeBotStats (Fin 0) (Fin 5) []) = 0
   \<and> winRate (computeBotStats (Fin 0) (Fin 5) []) = Fin 0
   \<and> roi (computeBotStats (Fin 0) (Fin 5) []) = Fin 0
   \<and> roi (computeBotStats (Fin 200) (Fin 250) []) = Fin (1 / 4)
   \<and> roi (computeBotStats NaN (Fin 250) []) = Fin 0"
proof -
  have c: "closedTrades (computeBotStats (Fin 0) (Fin 5) []) = 0"
    by (simp add: computeBotStats_def Let_def statsInit_def)
  have q: "toDouble (1 / 4) = Fin (1 / 4)"
    by (rule toDouble_sixtyfourth) simp_all
  from roi_guard_and_scenario_B [of "Fin 0" "Fin 5" "[]"] c
  have "winRate (computeBotStats (Fin 0) (Fin 5) []) = Fin 0
      \<and> roi (computeBotStats (Fin 0) (Fin 5) []) = Fin 0"
    by (simp add: eps_vals)
  moreover from roi_guard_and_scenario_B [of "Fin 200" "Fin 250" "[]"]
  have "roi (computeBotStats (Fin 200) (Fin 250) []) = Fin (1 / 4)"
    by (simp add: eps_vals q)
  moreover from roi_guard_and_scenario_B [of NaN "Fin 250" "[]"]
  have "roi (computeBotStats NaN (Fin 250) []) = Fin 0"
    by (simp add: jsGt_def)
  ultimately show ?thesis using c by simp
qed

subsection \<open>The order normaliser\<close>

lemma amountOf_sanitize:
  "amountOf d f =
     (case sanitizeNumber (getProp (d_data d) f) of
        Some v \<Rightarrow> if v > STATS_EPSILON then Some v else None
      | None \<Rightarrow> None)"
  by (cases "getProp (d_data d) f") (simp_all add: amountOf_def split: jsnum.splits)

lemma normalizeOrder_eq:
  "normalizeOrder now d = (if wellFormedRecord d then Some (fillOf now d) else None)"
proof (cases "getProp (d_data d) ''side''")
  case (JString s)
  then show ?thesis
    by (simp add: normalizeOrder_def wellFormedRecord_def fillOf_def symbolOf_def sideOf_def
        amountOf_sanitize timeOf_def Let_def not_le
        split: option.splits)
qed (simp_all add: normalizeOrder_def wellFormedRecord_def sideOf_def Let_def)

lemma map_filter_if:
  "List.map_filter (\<lambda>x. if P x then Some (f x) else None) xs = map f (filter P xs)"
  by (induction xs) (simp_all add: List.map_filter_def)

text \<open>
  C8. \<open>normalizeOrders\<close> is total (no operation of it can throw on any list of raw
  records), its result is sorted ascending by timestamp, and it is exactly the fills of the
  well-formed records, stably sorted by timestamp: a record is kept if and only if its symbol
  (the document id when the \<open>symbol\<close> field is not a string) is non-empty, its side
  lowercases to buy or sell, and its quantity and fill price are finite numbers above 1e-6.
\<close>

theorem normalizeOrders_keeps_exactly_well_formed:
  "sorted (map o_ts (normalizeOrders clock docs))
   \<and> normalizeOrders clock docs =
       sort_key o_ts
         (map (\<lambda>(i, d). fillOf (clock i) d)
            (filter (\<lambda>(i, d). wellFormedRecord d) (enumerate 0 docs)))"
proof -
  have "(\<lambda>(i, d). normalizeOrder (clock i) d)
      = (\<lambda>x. if (\<lambda>(i, d). wellFormedRecord d) x
              then Some ((\<lambda>(i, d). fillOf (clock i) d) x) else None)"
    by (auto simp: normalizeOrder_eq)
  then show ?thesis
    unfolding normalizeOrders_def by (simp only: map_filter_if sorted_sort_key simp_thms)
qed

theorem normalizeOrders_keeps_exactly_well_formed_witness:
  "normalizeOrders (\<lambda>i. 1000) rawDocs =
     [\<lparr>o_symbol = ''MSFT'', o_side = Sell, o_qty = 1, o_fillPrice = 3, o_ts = 2\<rparr>,
      \<lparr>o_symbol = ''AAPL'', o_side = Buy, o_qty = 2, o_fillPrice = 10, o_ts = 5\<rparr>]"
proof -
  have "sort_key o_ts
         (map (\<lambda>(i, d). fillOf ((\<lambda>i. 1000) i) d)
            (filter (\<lambda>(i, d). wellFormedRecord d) (enumerate 0 rawDocs))) =
     [\<lparr>o_symbol = ''MSFT'', o_side = Sell, o_qty = 1, o_fillPrice = 3, o_ts = 2\<rparr>,
      \<lparr>o_symbol = ''AAPL'', o_side = Buy, o_qty = 2, o_fillPrice = 10, o_ts = 5\<rparr>]"
    by (simp add: rawDocs_def rawDoc_def wellFormedRecord_def fillOf_def symbolOf_def sideOf_def
        amountOf_def timeOf_def toLowerCase_def eps_vals)
  with normalizeOrders_keeps_exactly_well_formed [of "\<lambda>i. 1000" rawDocs] show ?thesis
    by simp
qed

subsection \<open>Idempotence of \<open>round6\<close>\<close>

text \<open>
  C9, as amended. Under binary64 arithmetic, for every input \<open>x\<close> of magnitude at most
  4,294,967,295 (below \<open>2^32\<close>), \<open>round6 x\<close> is a finite number \<open>y\<close> and
  \<open>round6 y\<close> is \<open>y\<close> again: \<open>round6(round6(x)) == round6(x)\<close>.
\<close>

theorem round6_f64_idempotent_in_range:
  assumes "\<bar>x\<bar> \<le> 4294967295"
  shows "\<exists>y. round6 (Fin x) = Fin y \<and> round6 (Fin y) = Fin y
     \<and> jsEquals (round6 (round6 (Fin x))) (round6 (Fin x))"
proof -
  define a where "a = x * 1000000"
  define v where "v = fl a"
  define k where "k = \<lfloor>v + 1 / 2\<rfloor>"
  have a: "\<bar>a\<bar> \<le> 4294967295000000" using assms by (simp add: a_def abs_mult)
  then have "\<bar>a\<bar> < 2 powi 52" by simp
  from fl_error_below [OF this] have va: "\<bar>v - a\<bar> \<le> 1 / 4"
    by (simp add: v_def power_int_minus)
  then have "\<bar>v\<bar> < 10000000000000000" using a by linarith
  then have "\<bar>fl a\<bar> < 10000000000000000" by (simp only: v_def)
  then have ta: "toDouble a = Fin v" unfolding v_def by (rule toDouble_Fin)
  have "real_of_int k \<le> v + 1 / 2" "v + 1 / 2 < real_of_int k + 1" unfolding k_def by linarith+
  then have kb: "\<bar>real_of_int k\<bar> \<le> 4294967295000001" using va a by linarith
  define y where "y = fl (real_of_int k / 1000000)"
  from round6_f64_fixed_point [OF kb] have
    y: "toDouble (real_of_int k / 1000000) = Fin y" "round6 (Fin y) = Fin y"
    by (simp_all add: y_def)
  have r: "round6 (Fin x) = Fin y"
    using ta y(1) by (simp add: round6_def a_def [symmetric] k_def)
  show ?thesis using r y(2) by simp
qed

theorem round6_f64_idempotent_in_range_witness:
  "\<exists>y. round6 (Fin (5 / 2)) = Fin y \<and> round6 (Fin y) = Fin y
     \<and> jsEquals (round6 (round6 (Fin (5 / 2)))) (round6 (Fin (5 / 2)))"
  using round6_f64_idempotent_in_range [of "5 / 2"] by simp

lemma bigInput_isDouble: "isDouble bigInput"
  unfolding isDouble_def
  by (rule toDouble_eval [where e = 32]) (simp_all add: bigInput_def rne_def power_int_minus)

lemma bigInput_times: "jsMul (Fin bigInput) (Fin 1000000) = Fin (8590000000000023 / 2)"
  unfolding jsMul.simps
  by (rule toDouble_eval [where e = 51]) (simp_all add: bigInput_def rne_def power_int_minus)

lemma bigInput_round: "Math_round (Fin (8590000000000023 / 2)) = Fin 4295000000000012"
  by simp

lemma bigInput_over: "jsDiv (Fin 4295000000000012) (Fin 1000000) = Fin (4503633920000013 / 1048576)"
  unfolding jsDiv_million
  by (rule toDouble_eval [where e = 32]) (simp_all add: rne_def power_int_minus)

lemma second_times: "jsMul (Fin (4503633920000013 / 1048576)) (Fin 1000000) = Fin (8590000000000025 / 2)"
  unfolding jsMul.simps
  by (rule toDouble_eval [where e = 51]) (simp_all add: rne_def power_int_minus)

lemma second_round: "Math_round (Fin (8590000000000025 / 2)) = Fin 4295000000000013"
  by simp

lemma second_over: "jsDiv (Fin 4295000000000013) (Fin 1000000) = Fin (2251816960000007 / 524288)"
  unfolding jsDiv_million
  by (rule toDouble_eval [where e = 32]) (simp_all add: rne_def power_int_minus)

text \<open>
  C9 as stated fails just above \<open>2^32\<close>. The double nearest to 4295000000.000011 is
  \<open>bigInput\<close>; \<open>round6\<close> takes it to the double nearest to 4295000000.000012, and that
  one to the double nearest to 4295000000.000013: between \<open>2^32\<close> and \<open>2^33\<close> doubles
  are less than a millionth apart, and the product by \<open>1e6\<close> falls on a grid of halves,
  where \<open>Math.round\<close> moves a tie up. It also fails for \<open>NaN\<close>, which equals nothing.
\<close>

theorem round6_f64_idempotence_counterexample:
  "isDouble bigInput
   \<and> round6 (Fin bigInput) = Fin (4503633920000013 / 1048576)
   \<and> round6 (round6 (Fin bigInput)) = Fin (2251816960000007 / 524288)
   \<and> \<not> jsEquals (round6 (round6 (Fin bigInput))) (round6 (Fin bigInput))
   \<and> \<not> jsEquals (round6 (round6 NaN)) (round6 NaN)"
proof -
  have r1: "round6 (Fin bigInput) = Fin (4503633920000013 / 1048576)"
    by (simp only: round6_def bigInput_times bigInput_round bigInput_over)
  have r2: "round6 (Fin (4503633920000013 / 1048576)) = Fin (2251816960000007 / 524288)"
    by (simp only: round6_def second_times second_round second_over)
  have n: "round6 NaN = NaN" by (simp add: round6_def)
  show ?thesis using bigInput_isDouble by (simp add: r1 r2 n)
qed
subsection \<open>A buy is committed whatever the cash balance\<close>

lemma getProp_setMerge_first: "getProp (setMerge old ((k, v) # fs)) k = v"
  by (simp add: setMerge_def split: option.splits jsvalue.splits)

text \<open>The cash delta of a buy is the negated product, so adding it is subtracting the product.\<close>

lemma buy_delta:
  assumes "isDouble q"
  shows "jsAdd (Fin b) (jsMul (jsMul (Fin (- 1)) (Fin q)) (Fin p))
       = jsSub (Fin b) (jsMul (Fin q) (Fin p))"
proof -
  have "jsMul (Fin (- 1)) (Fin q) = Fin (- q)"
    using assms by (simp add: toDouble_minus isDouble_def)
  moreover have "jsMul (Fin (- q)) (Fin p) = jsNeg (jsMul (Fin q) (Fin p))"
    using toDouble_minus [of "q * p"] by simp
  ultimately show ?thesis by (simp add: jsSub_def)
qed


lemma fraction_price: "isDouble (7541536533010469 / 4503599627370496)"
  unfolding isDouble_def
  by (rule toDouble_exact [where m = 7541536533010469 and e = "- 52"])
    (simp_all add: power_int_minus)

lemma fraction_cash:
  "round6 (jsSub (Fin 10) (jsMul (Fin 1) (Fin (7541536533010469 / 4503599627370496))))
     = Fin (4686807186111835 / 562949953421312)"
proof -
  have a: "jsMul (Fin 1) (Fin (7541536533010469 / 4503599627370496))
      = Fin (7541536533010469 / 4503599627370496)"
    using fraction_price by (simp add: isDouble_def)
  have b: "jsSub (Fin 10) (Fin (7541536533010469 / 4503599627370496))
      = Fin (4686807467586811 / 562949953421312)"
    unfolding jsSub_Fin
    by (rule toDouble_eval [where e = 3]) (simp_all add: rne_def power_int_minus)
  have c: "jsMul (Fin (4686807467586811 / 562949953421312)) (Fin 1000000)
      = Fin (8939375815557119 / 1073741824)"
    unfolding jsMul.simps
    by (rule toDouble_eval [where e = 22]) (simp_all add: rne_def power_int_minus)
  have d: "Math_round (Fin (8939375815557119 / 1073741824)) = Fin 8325442"
    by simp
  have e: "jsDiv (Fin 8325442) (Fin 1000000) = Fin (4686807186111835 / 562949953421312)"
    unfolding jsDiv_million
    by (rule toDouble_eval [where e = 3]) (simp_all add: rne_def power_int_minus)
  show ?thesis by (simp only: a b round6_def c d e)
qed

lemma tenTo200_isDouble: "isDouble tenTo200"
  unfolding isDouble_def tenTo200_def
  by (rule toDouble_exact [where m = 5883593420661338 and e = 612]) simp_all

lemma huge_product: "jsMul (Fin tenTo200) (Fin tenTo200) = PosInf"
  unfolding jsMul.simps by (rule toDouble_overflow) (simp add: tenTo200_def)



end
